theory Spec2Isabelle
  imports Complex_Main
begin

section \<open>Data model\<close>

text \<open>
  The alert service of \<^verbatim>\<open>internal/service/alert_service.go\<close>, with the models of
  package \<^verbatim>\<open>models\<close>, the settings of package \<^verbatim>\<open>config\<close> and the claim loop of package
  \<^verbatim>\<open>kafka\<close>. Go strings are byte sequences, so a \<open>string\<close> here is the list of the
  bytes of the Go string and \<open>length\<close> is Go's \<^verbatim>\<open>len\<close>. Go's \<^verbatim>\<open>int\<close> is an \<open>int\<close>; the
  one place where the source multiplies in 64 bits (the cooldown duration) has the
  wrap-around written out.
\<close>

section \<open>Floating point\<close>

text \<open>
  A finite \<^verbatim>\<open>float64\<close> is modelled by the rational number it denotes, so comparisons are
  exact. A product of two \<^verbatim>\<open>float64\<close> is the exact product rounded to the nearest
  \<^verbatim>\<open>float64\<close>, ties to even. Infinities, NaN and the overflow of a product are not
  modelled.
\<close>

type_synonym float64 = rat

text \<open>Rounding to the nearest integer, ties to even.\<close>

definition round_half_even :: "rat \<Rightarrow> int" where
  "round_half_even q =
     (let fl = \<lfloor>q\<rfloor>; r = q - of_int fl
      in if r < 1 / 2 then fl else if r > 1 / 2 then fl + 1 else if even fl then fl else fl + 1)"

text \<open>
  The distance between neighbouring \<^verbatim>\<open>float64\<close> values around \<open>x\<close> (the unit in the last
  place of the 53-bit significand): \<open>2 ^ (e - 52)\<close> for \<open>2 ^ e \<le> x < 2 ^ (e + 1)\<close>, found
  by halving an \<open>x \<ge> 2\<close> and doubling an \<open>x < 1\<close>; below the smallest normal value it is the
  smallest subnormal value.
\<close>

function ulp_up :: "rat \<Rightarrow> rat" where
  "ulp_up x = (if x \<ge> 2 then 2 * ulp_up (x / 2) else 1 / 2 ^ 52)"
  by pat_completeness auto
termination
proof (relation "measure (\<lambda>x. nat \<lfloor>x\<rfloor>)")
  show "wf (measure (\<lambda>x::rat. nat \<lfloor>x\<rfloor>))"
    by simp
next
  fix x :: rat
  assume "2 \<le> x"
  then have "x / 2 \<le> x - 1" and "1 \<le> \<lfloor>x\<rfloor>"
    by simp_all
  then have "\<lfloor>x / 2\<rfloor> \<le> \<lfloor>x\<rfloor> - 1"
    by (metis floor_diff_one floor_mono)
  then show "(x / 2, x) \<in> measure (\<lambda>x. nat \<lfloor>x\<rfloor>)"
    using \<open>1 \<le> \<lfloor>x\<rfloor>\<close> by simp
qed

function ulp_down :: "rat \<Rightarrow> rat" where
  "ulp_down x = (if 0 < x \<and> x < 1 then ulp_down (2 * x) / 2 else 1 / 2 ^ 52)"
  by pat_completeness auto
termination
proof (relation "measure (\<lambda>x. nat \<lceil>1 / x\<rceil>)")
  show "wf (measure (\<lambda>x::rat. nat \<lceil>1 / x\<rceil>))"
    by simp
next
  fix x :: rat
  assume a: "0 < x \<and> x < 1"
  then have y: "1 < 1 / x"
    by simp
  then have two: "2 \<le> \<lceil>1 / x\<rceil>"
    by (simp add: less_ceiling_iff [symmetric])
  have "(1 / x) / 2 \<le> of_int \<lceil>1 / x\<rceil> / 2"
    by simp
  also have "\<dots> \<le> of_int (\<lceil>1 / x\<rceil> - 1)"
    using two by simp
  finally have "\<lceil>(1 / x) / 2\<rceil> \<le> \<lceil>1 / x\<rceil> - 1"
    by (simp only: ceiling_le_iff)
  moreover have "1 / (2 * x) = (1 / x) / 2"
    by simp
  ultimately have "\<lceil>1 / (2 * x)\<rceil> < \<lceil>1 / x\<rceil>"
    by (simp add: mult.commute)
  then show "(2 * x, x) \<in> measure (\<lambda>x. nat \<lceil>1 / x\<rceil>)"
    using a by simp
qed

declare ulp_up.simps [simp del]
declare ulp_down.simps [simp del]

text \<open>The smallest normal and the smallest subnormal \<^verbatim>\<open>float64\<close>.\<close>

definition min_normal :: rat where "min_normal = 1 / 2 ^ 1022"
definition min_subnormal :: rat where "min_subnormal = 1 / 2 ^ 1074"

definition ulp :: "rat \<Rightarrow> rat" where
  "ulp x = (if \<bar>x\<bar> \<ge> 1 then ulp_up \<bar>x\<bar>
            else if \<bar>x\<bar> < min_normal then min_subnormal
            else ulp_down \<bar>x\<bar>)"

text \<open>The \<^verbatim>\<open>float64\<close> nearest to a rational, ties to even.\<close>

definition round_float64 :: "rat \<Rightarrow> float64" where
  "round_float64 x = of_int (round_half_even (x / ulp x)) * ulp x"

text \<open>The rationals that are finite \<^verbatim>\<open>float64\<close> values.\<close>

definition is_float64 :: "rat \<Rightarrow> bool" where
  "is_float64 x \<longleftrightarrow> \<bar>x\<bar> < 2 ^ 1024 \<and> round_float64 x = x"

text \<open>The product \<^verbatim>\<open>a * b\<close> of two \<^verbatim>\<open>float64\<close>.\<close>

definition float64_mul :: "float64 \<Rightarrow> float64 \<Rightarrow> float64" where
  "float64_mul a b = round_float64 (a * b)"

section \<open>Events and settings\<close>

text \<open>
  A reading of \<^verbatim>\<open>time.Now()\<close>: the monotonic clock in nanoseconds, which \<^verbatim>\<open>time.Since\<close>
  subtracts, and the hour of the day of the wall clock in the local zone, which
  \<^verbatim>\<open>Hour()\<close> returns.
\<close>

record instant =
  monotonic :: int
  hour :: int

text \<open>A \<^verbatim>\<open>time.Time\<close> carried by an event; it is only ever formatted.\<close>

type_synonym timestamp = int

record RuleResult =
  RuleName :: string
  RuleConfidence :: float64
  RuleReasoning :: string

text \<open>The field \<^verbatim>\<open>Metadata\<close> of the source is never read and is left out.\<close>

record DecisionData =
  Symbol :: string
  Signal :: string
  Confidence :: float64
  PrimaryReasoning :: string
  RulesTriggered :: "RuleResult list"
  IndicatorsSnapshot :: "string \<rightharpoonup> float64"

record DecisionEvent =
  EventType :: string
  Source :: string
  SchemaVersion :: string
  Timestamp :: timestamp
  Data :: DecisionData

text \<open>The field \<^verbatim>\<open>RankingFactors\<close> of the source is never read and is left out.\<close>

record SymbolRanking =
  RSymbol :: string
  Rank :: int
  Score :: float64
  RSignalType :: string
  RConfidence :: float64
  Reasoning :: string

record RankingData =
  SignalType :: string
  Criteria :: string
  DTimestamp :: timestamp
  TotalSymbols :: int
  Rankings :: "SymbolRanking list"

record RankingEvent =
  REventType :: string
  RSource :: string
  RSchemaVersion :: string
  RTimestamp :: timestamp
  RData :: RankingData

text \<open>
  The handlers take an \<^verbatim>\<open>interface{}\<close> and assert its dynamic type; \<open>OtherEvent\<close> stands
  for a value of any other type.
\<close>

datatype event = Decision DecisionEvent | Ranking RankingEvent | OtherEvent

definition SignalBuy :: string where "SignalBuy = ''BUY''"
definition SignalSell :: string where "SignalSell = ''SELL''"
definition SignalWatch :: string where "SignalWatch = ''WATCH''"

text \<open>The alert settings of \<^verbatim>\<open>config.Config\<close>.\<close>

record Config =
  MinConfidence :: float64
  AlertOnBuy :: bool
  AlertOnSell :: bool
  AlertOnWatch :: bool
  AlertOnRankings :: bool
  RankingsTopN :: int
  CooldownMinutes :: int
  QuietHoursStart :: int
  QuietHoursEnd :: int
  EnableQuietHours :: bool

section \<open>The service state and its environment\<close>

text \<open>
  What \<^verbatim>\<open>log.Printf\<close> writes, one constructor for each call site of the service.
\<close>

datatype log_entry =
    SkipNotConfigured string string
  | SkipBelowThreshold string float64 float64
  | SkipCooldown string
  | SkipQuietHours string
  | SentAlert string string float64
  | SkipRankingQuietHours
  | SentRanking string nat

text \<open>
  The state threaded through the service: the cooldown map of \<^verbatim>\<open>AlertService\<close>, and the
  environment the service reads and writes.
  \<^item> \<open>clock s n\<close> is what the \<open>n\<close>-th call of \<^verbatim>\<open>time.Now()\<close> returns, \<open>ticks s\<close> the
    number of calls made so far;
  \<^item> \<open>transport s n text\<close> is the outcome of the \<open>n\<close>-th call of the Telegram client's
    \<^verbatim>\<open>SendMessage\<close>: \<open>None\<close> for a \<^verbatim>\<open>nil\<close> error, \<open>Some e\<close> for the error \<open>e\<close>;
    \<open>sent s\<close> lists the texts handed to it so far;
  \<^item> \<open>range_pick s m\<close> is the order in which a \<^verbatim>\<open>range\<close> over the map \<open>m\<close> yields its
    entries in this run;
  \<^item> \<open>logs s\<close> is the log written so far.
\<close>

record state =
  cooldowns :: "string \<rightharpoonup> instant"
  clock :: "nat \<Rightarrow> instant"
  ticks :: nat
  transport :: "nat \<Rightarrow> string \<Rightarrow> string option"
  sent :: "string list"
  range_pick :: "(string \<rightharpoonup> float64) \<Rightarrow> (string \<times> float64) list"
  logs :: "log_entry list"

definition time_Now :: "state \<Rightarrow> instant \<times> state" where
  "time_Now s = (clock s (ticks s), s\<lparr>ticks := Suc (ticks s)\<rparr>)"

definition log_Printf :: "log_entry \<Rightarrow> state \<Rightarrow> state" where
  "log_Printf e s = s\<lparr>logs := logs s @ [e]\<rparr>"

text \<open>\<^verbatim>\<open>telegram.Client.SendMessage\<close>: the text goes to the transport, whose answer is the error.\<close>

definition SendMessage :: "string \<Rightarrow> state \<Rightarrow> string option \<times> state" where
  "SendMessage message s = (transport s (length (sent s)) message, s\<lparr>sent := sent s @ [message]\<rparr>)"

section \<open>Cooldown and quiet hours\<close>

definition maxDuration :: int where "maxDuration = 2 ^ 63 - 1"
definition minDuration :: int where "minDuration = - (2 ^ 63)"

text \<open>A 64-bit signed product or conversion: the value modulo \<open>2 ^ 64\<close>, read as two's complement.\<close>

definition wrap64 :: "int \<Rightarrow> int" where
  "wrap64 x = (x + 2 ^ 63) mod 2 ^ 64 - 2 ^ 63"

text \<open>\<^verbatim>\<open>time.Minute\<close>, in nanoseconds.\<close>

definition Minute :: int where "Minute = 60000000000"

text \<open>
  \<^verbatim>\<open>Time.Sub\<close> on two readings of the monotonic clock: the difference, saturated to the
  range of a \<^verbatim>\<open>Duration\<close>.
\<close>

definition time_Sub :: "instant \<Rightarrow> instant \<Rightarrow> int" where
  "time_Sub t u =
     (let d = monotonic t - monotonic u
      in if d > maxDuration then maxDuration else if d < minDuration then minDuration else d)"

text \<open>\<^verbatim>\<open>time.Since(t)\<close> is \<^verbatim>\<open>time.Now().Sub(t)\<close>.\<close>

definition time_Since :: "instant \<Rightarrow> state \<Rightarrow> int \<times> state" where
  "time_Since t s = (let (now, s') = time_Now s in (time_Sub now t, s'))"

text \<open>\<^verbatim>\<open>time.Duration(s.config.CooldownMinutes) * time.Minute\<close>, a product of two \<^verbatim>\<open>int64\<close>.\<close>

definition cooldownDuration :: "Config \<Rightarrow> int" where
  "cooldownDuration cfg = wrap64 (wrap64 (CooldownMinutes cfg) * Minute)"

definition checkCooldown :: "Config \<Rightarrow> string \<Rightarrow> state \<Rightarrow> bool \<times> state" where
  "checkCooldown cfg symbol s =
     (case cooldowns s symbol of
        None \<Rightarrow> (True, s)
      | Some lastAlert \<Rightarrow>
          (let (elapsed, s') = time_Since lastAlert s
           in (elapsed \<ge> cooldownDuration cfg, s')))"

definition setCooldown :: "string \<Rightarrow> state \<Rightarrow> state" where
  "setCooldown symbol s =
     (let (now, s') = time_Now s in s'\<lparr>cooldowns := (cooldowns s')(symbol \<mapsto> now)\<rparr>)"

text \<open>The comparison of \<^verbatim>\<open>isQuietHours\<close> on the hour it has read.\<close>

definition quietAt :: "Config \<Rightarrow> int \<Rightarrow> bool" where
  "quietAt cfg h =
     (let start = QuietHoursStart cfg; end = QuietHoursEnd cfg
      in if start > end then h \<ge> start \<or> h < end else h \<ge> start \<and> h < end)"

definition isQuietHours :: "Config \<Rightarrow> state \<Rightarrow> bool \<times> state" where
  "isQuietHours cfg s =
     (if \<not> EnableQuietHours cfg then (False, s)
      else (let (now, s') = time_Now s in (quietAt cfg (hour now), s')))"

definition shouldAlertForSignal :: "Config \<Rightarrow> string \<Rightarrow> bool" where
  "shouldAlertForSignal cfg signal =
     (if signal = SignalBuy then AlertOnBuy cfg
      else if signal = SignalSell then AlertOnSell cfg
      else if signal = SignalWatch then AlertOnWatch cfg
      else False)"

section \<open>Construction\<close>

text \<open>The defaults of \<^verbatim>\<open>config.Load\<close> for the alert settings.\<close>

definition defaultConfig :: Config where
  "defaultConfig =
     \<lparr>MinConfidence = 6 / 10, AlertOnBuy = True, AlertOnSell = True, AlertOnWatch = False,
      AlertOnRankings = True, RankingsTopN = 5, CooldownMinutes = 30,
      QuietHoursStart = 22, QuietHoursEnd = 7, EnableQuietHours = False\<rparr>"

text \<open>\<^verbatim>\<open>NewAlertService\<close>: an empty cooldown map, in a given environment.\<close>

definition NewAlertService ::
  "(nat \<Rightarrow> instant) \<Rightarrow> (nat \<Rightarrow> string \<Rightarrow> string option) \<Rightarrow>
   ((string \<rightharpoonup> float64) \<Rightarrow> (string \<times> float64) list) \<Rightarrow> state" where
  "NewAlertService clk tr rp =
     \<lparr>cooldowns = Map.empty, clock = clk, ticks = 0, transport = tr, sent = [],
      range_pick = rp, logs = []\<rparr>"

section \<open>Rendering\<close>

text \<open>
  The formatting of the standard library, taken as given: \<open>fmt_f0\<close> is \<^verbatim>\<open>%.0f\<close>, \<open>fmt_f2\<close>
  is \<^verbatim>\<open>%.2f\<close>, and \<open>fmt_time layout t\<close> is \<^verbatim>\<open>t.Format(layout)\<close>.
\<close>

record fmtlib =
  fmt_f0 :: "float64 \<Rightarrow> string"
  fmt_f2 :: "float64 \<Rightarrow> string"
  fmt_time :: "string \<Rightarrow> timestamp \<Rightarrow> string"

text \<open>\<^verbatim>\<open>%d\<close>: the decimal digits, with a minus sign for a negative number.\<close>

fun show_nat :: "nat \<Rightarrow> string" where
  "show_nat n =
     (if n < 10 then [''0123456789'' ! n] else show_nat (n div 10) @ [''0123456789'' ! (n mod 10)])"

definition fmt_d :: "int \<Rightarrow> string" where
  "fmt_d i = (if i < 0 then ''-'' @ show_nat (nat (- i)) else show_nat (nat i))"

text \<open>The non-ASCII texts of the source, as their UTF-8 bytes.\<close>

definition nl :: string where "nl = [CHR 0x0A]"
definition green_circle :: string where "green_circle = [CHR 0xF0, CHR 0x9F, CHR 0x9F, CHR 0xA2]"
definition red_circle :: string where "red_circle = [CHR 0xF0, CHR 0x9F, CHR 0x94, CHR 0xB4]"
definition eyes :: string where "eyes = [CHR 0xF0, CHR 0x9F, CHR 0x91, CHR 0x80]"
definition bar_chart :: string where "bar_chart = [CHR 0xF0, CHR 0x9F, CHR 0x93, CHR 0x8A]"
definition light_bulb :: string where "light_bulb = [CHR 0xF0, CHR 0x9F, CHR 0x92, CHR 0xA1]"
definition clipboard :: string where "clipboard = [CHR 0xF0, CHR 0x9F, CHR 0x93, CHR 0x8B]"
definition chart_up :: string where "chart_up = [CHR 0xF0, CHR 0x9F, CHR 0x93, CHR 0x88]"
definition clock_one :: string where "clock_one = [CHR 0xF0, CHR 0x9F, CHR 0x95, CHR 0x90]"
definition bullet :: string where "bullet = [CHR 0xE2, CHR 0x80, CHR 0xA2]"
definition medal_gold :: string where "medal_gold = [CHR 0xF0, CHR 0x9F, CHR 0xA5, CHR 0x87]"
definition medal_silver :: string where "medal_silver = [CHR 0xF0, CHR 0x9F, CHR 0xA5, CHR 0x88]"
definition medal_bronze :: string where "medal_bronze = [CHR 0xF0, CHR 0x9F, CHR 0xA5, CHR 0x89]"
definition calendar :: string where "calendar = [CHR 0xF0, CHR 0x9F, CHR 0x93, CHR 0x85]"
definition corner :: string where "corner = [CHR 0xE2, CHR 0x94, CHR 0x94]"
definition full_block :: string where "full_block = [CHR 0xE2, CHR 0x96, CHR 0x88]"
definition light_shade :: string where "light_shade = [CHR 0xE2, CHR 0x96, CHR 0x91]"

text \<open>
  A function that can panic returns \<open>Inl\<close> of the panic's message.
  \<^verbatim>\<open>strings.Repeat\<close> panics on a negative count.
\<close>

definition strings_Repeat :: "string \<Rightarrow> int \<Rightarrow> string + string" where
  "strings_Repeat str count =
     (if count < 0 then Inl ''strings: negative Repeat count''
      else Inr (concat (replicate (nat count) str)))"

text \<open>The conversion \<^verbatim>\<open>int(x)\<close> of a \<^verbatim>\<open>float64\<close> discards the fraction (truncation towards zero).\<close>

definition int_of_float64 :: "float64 \<Rightarrow> int" where
  "int_of_float64 x = (if x \<ge> 0 then \<lfloor>x\<rfloor> else \<lceil>x\<rceil>)"

definition formatConfidenceBar :: "float64 \<Rightarrow> string + string" where
  "formatConfidenceBar confidence =
     (let filled = int_of_float64 (float64_mul confidence 10);
          empty = 10 - filled
      in case strings_Repeat full_block filled of
           Inl p \<Rightarrow> Inl p
         | Inr a \<Rightarrow> (case strings_Repeat light_shade empty of
                       Inl p \<Rightarrow> Inl p
                     | Inr b \<Rightarrow> Inr (a @ b)))"

text \<open>
  The order in which a \<^verbatim>\<open>range\<close> over a map yields its entries is not specified by the
  language and changes from one iteration to the next: any list of the entries of the map,
  each key once, is a possible order.
\<close>

definition range_order :: "('k \<rightharpoonup> 'v) \<Rightarrow> ('k \<times> 'v) list \<Rightarrow> bool" where
  "range_order m kvs \<longleftrightarrow> distinct (map fst kvs) \<and> map_of kvs = m"

text \<open>
  \<^verbatim>\<open>formatDecisionMessage\<close>. The argument \<open>kvs\<close> is the order in which the \<^verbatim>\<open>range\<close> over
  \<^verbatim>\<open>data.IndicatorsSnapshot\<close> yields the entries; \<^verbatim>\<open>len(data.IndicatorsSnapshot)\<close> is its
  length. A panic of \<^verbatim>\<open>formatConfidenceBar\<close> is a panic of the renderer.
\<close>

definition formatDecisionMessage ::
  "fmtlib \<Rightarrow> (string \<times> float64) list \<Rightarrow> DecisionEvent \<Rightarrow> string + string" where
  "formatDecisionMessage f kvs event =
     (let data = Data event;
          emoji = (if Signal data = SignalBuy then green_circle
                   else if Signal data = SignalSell then red_circle
                   else if Signal data = SignalWatch then eyes
                   else [])
      in case formatConfidenceBar (Confidence data) of
           Inl p \<Rightarrow> Inl p
         | Inr confidenceBar \<Rightarrow>
             Inr (emoji @ '' <b>'' @ Signal data @ '' Signal: '' @ Symbol data @ ''</b>'' @ nl @ nl
                @ bar_chart @ '' Confidence: '' @ fmt_f0 f (float64_mul (Confidence data) 100) @ ''% ''
                    @ confidenceBar @ nl @ nl
                @ light_bulb @ '' <b>Reason:</b>'' @ nl @ PrimaryReasoning data @ nl @ nl
                @ (if length (RulesTriggered data) > 0
                   then clipboard @ '' <b>Rules Triggered:</b>'' @ nl
                        @ concat (map (\<lambda>rule. ''  '' @ bullet @ '' '' @ RuleName rule @ '' (''
                                         @ fmt_f0 f (float64_mul (RuleConfidence rule) 100) @ ''%)'' @ nl)
                                    (RulesTriggered data))
                        @ nl
                   else [])
                @ (if length kvs > 0
                   then chart_up @ '' <b>Key Indicators:</b>'' @ nl
                        @ concat (map (\<lambda>(name, v). ''  '' @ bullet @ '' '' @ name @ '': ''
                                         @ fmt_f2 f v @ nl) kvs)
                        @ nl
                   else [])
                @ clock_one @ '' '' @ fmt_time f ''2006-01-02 15:04:05 MST'' (Timestamp event)))"

text \<open>An index expression \<^verbatim>\<open>xs[i]\<close> panics out of range.\<close>

definition index_at :: "'a list \<Rightarrow> int \<Rightarrow> string + 'a" where
  "index_at xs i =
     (if 0 \<le> i \<and> i < int (length xs) then Inr (xs ! nat i) else Inl ''index out of range'')"

text \<open>The body of the loop of \<^verbatim>\<open>formatRankingMessage\<close>, for the entry \<open>r\<close> at index \<open>i\<close>.\<close>

definition ranking_entry :: "fmtlib \<Rightarrow> int \<Rightarrow> SymbolRanking \<Rightarrow> string" where
  "ranking_entry f i r =
     (let medal = (if i = 0 then medal_gold
                   else if i = 1 then medal_silver
                   else if i = 2 then medal_bronze
                   else fmt_d (i + 1) @ ''.'')
      in medal @ '' <b>'' @ RSymbol r @ ''</b> - Score: '' @ fmt_f2 f (Score r) @ '' (''
           @ fmt_f0 f (float64_mul (RConfidence r) 100) @ ''% confidence)'' @ nl
         @ (if Reasoning r \<noteq> []
            then (let reasoning = (if length (Reasoning r) > 100
                                   then take 97 (Reasoning r) @ ''...''
                                   else Reasoning r)
                  in ''    '' @ corner @ '' '' @ reasoning @ nl)
            else [])
         @ nl)"

text \<open>The loop \<^verbatim>\<open>for i := 0; i < count; i++\<close>, appending to the text built so far.\<close>

function ranking_loop ::
  "fmtlib \<Rightarrow> SymbolRanking list \<Rightarrow> int \<Rightarrow> int \<Rightarrow> string \<Rightarrow> string + string" where
  "ranking_loop f rankings count i sb =
     (if i < count
      then (case index_at rankings i of
              Inl p \<Rightarrow> Inl p
            | Inr r \<Rightarrow> ranking_loop f rankings count (i + 1) (sb @ ranking_entry f i r))
      else Inr sb)"
  by pat_completeness auto
termination
  by (relation "measure (\<lambda>(f, rankings, count, i, sb). nat (count - i))") auto

definition formatRankingMessage :: "fmtlib \<Rightarrow> Config \<Rightarrow> RankingEvent \<Rightarrow> string + string" where
  "formatRankingMessage f cfg event =
     (let data = RData event;
          emoji = (if SignalType data = SignalBuy then green_circle
                   else if SignalType data = SignalSell then red_circle
                   else []);
          count = (if RankingsTopN cfg > int (length (Rankings data))
                   then int (length (Rankings data)) else RankingsTopN cfg);
          sb = emoji @ '' <b>'' @ SignalType data @ '' Rankings Update</b>'' @ nl
               @ calendar @ '' '' @ fmt_time f ''2006-01-02 15:04'' (DTimestamp data) @ nl @ nl
               @ ''<b>Top '' @ fmt_d count @ '' '' @ SignalType data @ '' Candidates:</b>'' @ nl @ nl
      in case ranking_loop f (Rankings data) count 0 sb of
           Inl p \<Rightarrow> Inl p
         | Inr sb' \<Rightarrow> Inr (sb' @ bar_chart @ '' Total symbols analyzed: ''
                            @ fmt_d (TotalSymbols data)))"

section \<open>The handlers\<close>

text \<open>
  What a call of a handler ends with: a \<^verbatim>\<open>nil\<close> error, an error, or a panic that
  unwinds through the caller.
\<close>

datatype outcome = Success | Failure string | Panicked string

definition HandleDecisionEvent :: "fmtlib \<Rightarrow> Config \<Rightarrow> event \<Rightarrow> state \<Rightarrow> outcome \<times> state" where
  "HandleDecisionEvent f cfg ev s =
     (case ev of
        Decision decision \<Rightarrow>
          (let data = Data decision
           in if \<not> shouldAlertForSignal cfg (Signal data)
              then (Success, log_Printf (SkipNotConfigured (Symbol data) (Signal data)) s)
              else if Confidence data < MinConfidence cfg
              then (Success,
                    log_Printf (SkipBelowThreshold (Symbol data) (Confidence data) (MinConfidence cfg)) s)
              else (let (ok, s1) = checkCooldown cfg (Symbol data) s
                    in if \<not> ok
                       then (Success, log_Printf (SkipCooldown (Symbol data)) s1)
                       else (let (quiet, s2) = isQuietHours cfg s1
                             in if quiet
                                then (Success, log_Printf (SkipQuietHours (Symbol data)) s2)
                                else (case formatDecisionMessage f
                                             (range_pick s2 (IndicatorsSnapshot data)) decision of
                                        Inl p \<Rightarrow> (Panicked p, s2)
                                      | Inr message \<Rightarrow>
                                          (let (err, s3) = SendMessage message s2
                                           in case err of
                                                Some e \<Rightarrow>
                                                  (Failure (''failed to send telegram message: '' @ e), s3)
                                              | None \<Rightarrow>
                                                  (Success,
                                                   log_Printf
                                                     (SentAlert (Symbol data) (Signal data) (Confidence data))
                                                     (setCooldown (Symbol data) s3)))))))
      | _ \<Rightarrow> (Failure ''invalid event type for decision handler'', s))"

definition HandleRankingEvent :: "fmtlib \<Rightarrow> Config \<Rightarrow> event \<Rightarrow> state \<Rightarrow> outcome \<times> state" where
  "HandleRankingEvent f cfg ev s =
     (case ev of
        Ranking ranking \<Rightarrow>
          (if \<not> AlertOnRankings cfg then (Success, s)
           else (let (quiet, s1) = isQuietHours cfg s
                 in if quiet then (Success, log_Printf SkipRankingQuietHours s1)
                    else (case formatRankingMessage f cfg ranking of
                            Inl p \<Rightarrow> (Panicked p, s1)
                          | Inr message \<Rightarrow>
                              (let (err, s2) = SendMessage message s1
                               in case err of
                                    Some e \<Rightarrow>
                                      (Failure (''failed to send telegram ranking message: '' @ e), s2)
                                  | None \<Rightarrow>
                                      (Success,
                                       log_Printf
                                         (SentRanking (SignalType (RData ranking))
                                            (length (Rankings (RData ranking))))
                                         s2)))))
      | _ \<Rightarrow> (Failure ''invalid event type for ranking handler'', s))"

section \<open>The decision gates, as the specification words them\<close>

text \<open>
  All four gates of a decision event pass: the signal type is enabled, the confidence is at
  least the threshold, the cooldown has elapsed, and, read after the cooldown check, it is
  not quiet hours.
\<close>

definition gates_pass :: "Config \<Rightarrow> DecisionEvent \<Rightarrow> state \<Rightarrow> bool" where
  "gates_pass cfg d s \<longleftrightarrow>
     shouldAlertForSignal cfg (Signal (Data d))
     \<and> Confidence (Data d) \<ge> MinConfidence cfg
     \<and> fst (checkCooldown cfg (Symbol (Data d)) s)
     \<and> \<not> fst (isQuietHours cfg (snd (checkCooldown cfg (Symbol (Data d)) s)))"

text \<open>The state once the cooldown and the quiet hours have been checked.\<close>

definition after_gates :: "Config \<Rightarrow> DecisionEvent \<Rightarrow> state \<Rightarrow> state" where
  "after_gates cfg d s = snd (isQuietHours cfg (snd (checkCooldown cfg (Symbol (Data d)) s)))"

section \<open>Sample environments and events\<close>

text \<open>A clock that stands still at hour \<open>h\<close>, and one that advances by \<open>d\<close> nanoseconds a reading.\<close>

definition stopped_clock :: "int \<Rightarrow> nat \<Rightarrow> instant" where
  "stopped_clock h n = \<lparr>monotonic = 0, hour = h\<rparr>"

definition stepping_clock :: "int \<Rightarrow> int \<Rightarrow> nat \<Rightarrow> instant" where
  "stepping_clock d h n = \<lparr>monotonic = int n * d, hour = h\<rparr>"

text \<open>A transport that accepts every text, and one that fails every send.\<close>

definition transport_up :: "nat \<Rightarrow> string \<Rightarrow> string option" where
  "transport_up n text = None"

definition transport_down :: "nat \<Rightarrow> string \<Rightarrow> string option" where
  "transport_down n text = Some ''timeout''"

text \<open>A run in which every \<^verbatim>\<open>range\<close> yields the entries \<open>kvs\<close>.\<close>

definition pick_listed ::
  "(string \<times> float64) list \<Rightarrow> (string \<rightharpoonup> float64) \<Rightarrow> (string \<times> float64) list" where
  "pick_listed kvs m = kvs"

text \<open>
  A formatting of exact rationals to a fixed number of decimals, rounding half to even, and
  of a time as its number.
\<close>

definition fmt_fixed :: "nat \<Rightarrow> rat \<Rightarrow> string" where
  "fmt_fixed prec x =
     (let n = nat (round_half_even (\<bar>x\<bar> * 10 ^ prec));
          frac = show_nat (n mod 10 ^ prec)
      in (if x < 0 then ''-'' else []) @ show_nat (n div 10 ^ prec)
         @ (if prec = 0 then [] else ''.'' @ replicate (prec - length frac) CHR ''0'' @ frac))"

definition std_fmt :: fmtlib where
  "std_fmt = \<lparr>fmt_f0 = fmt_fixed 0, fmt_f2 = fmt_fixed 2, fmt_time = (\<lambda>layout t. fmt_d t)\<rparr>"

definition sample_decision :: "string \<Rightarrow> float64 \<Rightarrow> DecisionEvent" where
  "sample_decision signal confidence =
     \<lparr>EventType = ''DECISION'', Source = ''decision-engine'', SchemaVersion = ''1.0'',
      Timestamp = 0,
      Data = \<lparr>Symbol = ''AAPL'', Signal = signal, Confidence = confidence,
              PrimaryReasoning = ''RSI oversold'', RulesTriggered = [],
              IndicatorsSnapshot = Map.empty\<rparr>\<rparr>"

section \<open>The ranking entries, as the specification words them\<close>

text \<open>
  The marker of the entry at the 1-based position \<open>pos\<close>: three fixed markers for the
  positions 1 to 3, the number and a dot after them.
\<close>

definition spec_marker :: "nat \<Rightarrow> string" where
  "spec_marker pos =
     (if pos = 1 then medal_gold
      else if pos = 2 then medal_silver
      else if pos = 3 then medal_bronze
      else fmt_d (int pos) @ ''.'')"

text \<open>
  A reasoning of at most 100 bytes unchanged, a longer one cut to its first 97 bytes and the
  truncation marker.
\<close>

definition spec_reasoning :: "string \<Rightarrow> string" where
  "spec_reasoning r = (if length r \<le> 100 then r else take 97 r @ ''...'')"

text \<open>An entry: marker, symbol, score and confidence; then the reasoning, when there is one.\<close>

definition spec_ranking_entry :: "fmtlib \<Rightarrow> nat \<Rightarrow> SymbolRanking \<Rightarrow> string" where
  "spec_ranking_entry f pos r =
     spec_marker pos @ '' <b>'' @ RSymbol r @ ''</b> - Score: '' @ fmt_f2 f (Score r) @ '' (''
     @ fmt_f0 f (float64_mul (RConfidence r) 100) @ ''% confidence)'' @ nl
     @ (if Reasoning r = [] then [] else ''    '' @ corner @ '' '' @ spec_reasoning (Reasoning r) @ nl)
     @ nl"

text \<open>The entries of the first \<open>n\<close> rankings, in their given order, numbered from 1.\<close>

definition spec_ranking_entries :: "fmtlib \<Rightarrow> nat \<Rightarrow> SymbolRanking list \<Rightarrow> string list" where
  "spec_ranking_entries f n rs =
     map (\<lambda>(j, r). spec_ranking_entry f (Suc j) r) (enumerate 0 (take n rs))"

text \<open>Ten rankings S0 to S9; the reasoning of S0 has 150 bytes, that of S4 none.\<close>

definition sample_ranking :: "nat \<Rightarrow> SymbolRanking" where
  "sample_ranking j =
     \<lparr>RSymbol = ''S'' @ show_nat j, Rank = int j + 1, Score = 9 - of_nat j / 2,
      RSignalType = ''BUY'', RConfidence = 9 / 10,
      Reasoning = (if j = 0 then replicate 150 CHR ''x'' else if j = 4 then [] else ''momentum'')\<rparr>"

definition sample_ranking_event :: RankingEvent where
  "sample_ranking_event =
     \<lparr>REventType = ''RANKING'', RSource = ''decision-engine'', RSchemaVersion = ''1.0'',
      RTimestamp = 0,
      RData = \<lparr>SignalType = ''BUY'', Criteria = ''daily'', DTimestamp = 0, TotalSymbols = 42,
               Rankings = map sample_ranking [0 ..< 10]\<rparr>\<rparr>"

text \<open>A BUY decision with the two indicators RSI = 30 and MACD = 1.\<close>

definition two_indicators :: DecisionEvent where
  "two_indicators =
     \<lparr>EventType = ''DECISION'', Source = ''decision-engine'', SchemaVersion = ''1.0'',
      Timestamp = 0,
      Data = \<lparr>Symbol = ''AAPL'', Signal = ''BUY'', Confidence = 8 / 10,
              PrimaryReasoning = ''RSI oversold'', RulesTriggered = [],
              IndicatorsSnapshot = [''RSI'' \<mapsto> 30, ''MACD'' \<mapsto> 1]\<rparr>\<rparr>"

section \<open>The claim loop\<close>

text \<open>A message of a claim (\<^verbatim>\<open>sarama.ConsumerMessage\<close>): its topic, payload, partition and offset.\<close>

record ConsumerMessage =
  Topic :: string
  Value :: string
  Partition :: int
  Offset :: int

text \<open>What \<^verbatim>\<open>ConsumeClaim\<close> logs.\<close>

datatype claim_log =
    FailedUnmarshalDecision string
  | FailedHandleDecision string
  | FailedUnmarshalRanking string
  | FailedHandleRanking string

text \<open>
  The trace of a claim loop: a message received from \<^verbatim>\<open>claim.Messages()\<close>, a handler
  invoked on the event decoded from a message, a line logged, and a message marked with
  \<^verbatim>\<open>session.MarkMessage\<close>, which commits its offset.
\<close>

datatype claim_action =
    is_Received: Received ConsumerMessage
  | is_Invoked: Invoked ConsumerMessage
  | is_Logged: Logged claim_log
  | is_Marked: Marked ConsumerMessage

text \<open>
  The consumer: its two topics and its two handlers, \<open>None\<close> for a \<^verbatim>\<open>nil\<close> handler. A
  handler works on a state of its own, of type \<open>'s\<close>.
\<close>

record 's Consumer =
  decisionTopic :: string
  rankingTopic :: string
  decisionHandler :: "(event \<Rightarrow> 's \<Rightarrow> outcome \<times> 's) option"
  rankingHandler :: "(event \<Rightarrow> 's \<Rightarrow> outcome \<times> 's) option"

text \<open>\<^verbatim>\<open>json.Unmarshal\<close> into each of the two models, taken as given: \<open>Inl\<close> is its error.\<close>

record jsonlib =
  unmarshalDecision :: "string \<Rightarrow> string + DecisionEvent"
  unmarshalRanking :: "string \<Rightarrow> string + RankingEvent"

text \<open>
  The body of the loop for a received message. The first component of the result is
  \<open>Some p\<close> when a handler panics with \<open>p\<close>, which unwinds the loop, and \<open>None\<close> when the
  loop goes on to its next iteration.
\<close>

definition handleMessage ::
  "jsonlib \<Rightarrow> 's Consumer \<Rightarrow> ConsumerMessage \<Rightarrow> 's \<times> claim_action list \<Rightarrow>
   string option \<times> ('s \<times> claim_action list)" where
  "handleMessage j c message st =
     (let (s, tr) = st
      in if Topic message = decisionTopic c
         then (case decisionHandler c of
                 None \<Rightarrow> (None, (s, tr @ [Marked message]))
               | Some h \<Rightarrow>
                   (case unmarshalDecision j (Value message) of
                      Inl err \<Rightarrow>
                        (None, (s, tr @ [Logged (FailedUnmarshalDecision err), Marked message]))
                    | Inr ev \<Rightarrow>
                        (case h (Decision ev) s of
                           (Panicked p, s') \<Rightarrow> (Some p, (s', tr @ [Invoked message]))
                         | (Failure e, s') \<Rightarrow>
                             (None, (s', tr @ [Invoked message, Logged (FailedHandleDecision e),
                                               Marked message]))
                         | (Success, s') \<Rightarrow>
                             (None, (s', tr @ [Invoked message, Marked message])))))
         else if Topic message = rankingTopic c
         then (case rankingHandler c of
                 None \<Rightarrow> (None, (s, tr @ [Marked message]))
               | Some h \<Rightarrow>
                   (case unmarshalRanking j (Value message) of
                      Inl err \<Rightarrow>
                        (None, (s, tr @ [Logged (FailedUnmarshalRanking err), Marked message]))
                    | Inr ev \<Rightarrow>
                        (case h (Ranking ev) s of
                           (Panicked p, s') \<Rightarrow> (Some p, (s', tr @ [Invoked message]))
                         | (Failure e, s') \<Rightarrow>
                             (None, (s', tr @ [Invoked message, Logged (FailedHandleRanking e),
                                               Marked message]))
                         | (Success, s') \<Rightarrow>
                             (None, (s', tr @ [Invoked message, Marked message])))))
         else (None, (s, tr @ [Marked message])))"

text \<open>
  What a \<^verbatim>\<open>select\<close> of the loop yields: a message of the claim, the closing of the
  channel of messages, or the end of the session's context.
\<close>

datatype recv = Message ConsumerMessage | ChannelClosed | ContextDone

text \<open>
  How a call of \<^verbatim>\<open>ConsumeClaim\<close> stands after the given \<^verbatim>\<open>select\<close>s: it has returned
  \<^verbatim>\<open>nil\<close>, a panic has unwound it, or it waits in its next \<^verbatim>\<open>select\<close>.
\<close>

datatype claim_result = ReturnedNil | Unwound string | Waiting

fun ConsumeClaim ::
  "jsonlib \<Rightarrow> 's Consumer \<Rightarrow> recv list \<Rightarrow> 's \<times> claim_action list \<Rightarrow>
   claim_result \<times> ('s \<times> claim_action list)" where
  "ConsumeClaim j c [] st = (Waiting, st)"
| "ConsumeClaim j c (ChannelClosed # evs) st = (ReturnedNil, st)"
| "ConsumeClaim j c (ContextDone # evs) st = (ReturnedNil, st)"
| "ConsumeClaim j c (Message message # evs) st =
     (case handleMessage j c message (fst st, snd st @ [Received message]) of
        (Some p, st') \<Rightarrow> (Unwound p, st')
      | (None, st') \<Rightarrow> ConsumeClaim j c evs st')"

section \<open>The claim loop, as the specification words it\<close>

text \<open>
  The handler registered for the topic of a message: none for a topic that is neither of
  the two, and none where the handler of the topic is \<^verbatim>\<open>nil\<close>.
\<close>

definition handler_of :: "'s Consumer \<Rightarrow> ConsumerMessage \<Rightarrow> (event \<Rightarrow> 's \<Rightarrow> outcome \<times> 's) option" where
  "handler_of c m =
     (if Topic m = decisionTopic c then decisionHandler c
      else if Topic m = rankingTopic c then rankingHandler c
      else None)"

text \<open>
  The payload of a message decoded into the model of its topic: the event of a valid
  payload, or the error of a malformed one.
\<close>

definition decode :: "jsonlib \<Rightarrow> 's Consumer \<Rightarrow> ConsumerMessage \<Rightarrow> string + event" where
  "decode j c m =
     (if Topic m = decisionTopic c
      then (case unmarshalDecision j (Value m) of Inl err \<Rightarrow> Inl err | Inr ev \<Rightarrow> Inr (Decision ev))
      else (case unmarshalRanking j (Value m) of Inl err \<Rightarrow> Inl err | Inr ev \<Rightarrow> Inr (Ranking ev)))"

text \<open>
  The dispatch of a message delivered in state \<open>s\<close>: the handler of its topic run on the
  event that its payload decodes to, with what the handler ends with and the state it
  leaves. There is no dispatch for a message without a handler or with a malformed payload.
\<close>

definition dispatch ::
  "jsonlib \<Rightarrow> 's Consumer \<Rightarrow> ConsumerMessage \<Rightarrow> 's \<Rightarrow> (outcome \<times> 's) option" where
  "dispatch j c m s =
     (case handler_of c m of
        None \<Rightarrow> None
      | Some h \<Rightarrow> (case decode j c m of Inl err \<Rightarrow> None | Inr ev \<Rightarrow> Some (h ev s)))"

text \<open>
  The message is of one of the three kinds of the claim: its payload is malformed, or its
  handler returns, with or without an error. What is left is a handler that panics.
\<close>

definition returns_in :: "jsonlib \<Rightarrow> 's Consumer \<Rightarrow> ConsumerMessage \<Rightarrow> 's \<Rightarrow> bool" where
  "returns_in j c m s =
     (case dispatch j c m s of
        None \<Rightarrow> True
      | Some r \<Rightarrow> (case fst r of Panicked p \<Rightarrow> False | Failure e \<Rightarrow> True | Success \<Rightarrow> True))"

text \<open>The state in which the next message is delivered.\<close>

definition state_after :: "jsonlib \<Rightarrow> 's Consumer \<Rightarrow> ConsumerMessage \<Rightarrow> 's \<Rightarrow> 's" where
  "state_after j c m s = (case dispatch j c m s of None \<Rightarrow> s | Some r \<Rightarrow> snd r)"

text \<open>
  The lines logged for a message: the decoding error of a malformed payload, or the error
  that the handler has returned.
\<close>

definition logged :: "jsonlib \<Rightarrow> 's Consumer \<Rightarrow> ConsumerMessage \<Rightarrow> 's \<Rightarrow> claim_log list" where
  "logged j c m s =
     (case handler_of c m of
        None \<Rightarrow> []
      | Some h \<Rightarrow>
          (case decode j c m of
             Inl err \<Rightarrow> [if Topic m = decisionTopic c then FailedUnmarshalDecision err
                         else FailedUnmarshalRanking err]
           | Inr ev \<Rightarrow>
               (case fst (h ev s) of
                  Failure e \<Rightarrow> [if Topic m = decisionTopic c then FailedHandleDecision e
                                else FailedHandleRanking e]
                | Success \<Rightarrow> []
                | Panicked p \<Rightarrow> [])))"

text \<open>
  What happens between the delivery of a message and its mark: the handler is invoked when
  there is a dispatch, then the lines are logged.
\<close>

definition dispatch_trace ::
  "jsonlib \<Rightarrow> 's Consumer \<Rightarrow> ConsumerMessage \<Rightarrow> 's \<Rightarrow> claim_action list" where
  "dispatch_trace j c m s =
     (case dispatch j c m s of None \<Rightarrow> [] | Some r \<Rightarrow> [Invoked m]) @ map Logged (logged j c m s)"

text \<open>
  The part of the trace that belongs to one message: the message is delivered, then
  dispatched, and marked last.
\<close>

definition message_block ::
  "jsonlib \<Rightarrow> 's Consumer \<Rightarrow> ConsumerMessage \<Rightarrow> 's \<Rightarrow> claim_action list" where
  "message_block j c m s = Received m # dispatch_trace j c m s @ [Marked m]"

text \<open>
  A sequence of delivered messages, from state \<open>s\<close> on: the state after all of them, their
  blocks one after the other, and whether each of them is of one of the three kinds in
  the state in which it is delivered.
\<close>

fun run_state :: "jsonlib \<Rightarrow> 's Consumer \<Rightarrow> ConsumerMessage list \<Rightarrow> 's \<Rightarrow> 's" where
  "run_state j c [] s = s"
| "run_state j c (m # msgs) s = run_state j c msgs (state_after j c m s)"

fun run_trace :: "jsonlib \<Rightarrow> 's Consumer \<Rightarrow> ConsumerMessage list \<Rightarrow> 's \<Rightarrow> claim_action list" where
  "run_trace j c [] s = []"
| "run_trace j c (m # msgs) s = message_block j c m s @ run_trace j c msgs (state_after j c m s)"

fun all_return :: "jsonlib \<Rightarrow> 's Consumer \<Rightarrow> ConsumerMessage list \<Rightarrow> 's \<Rightarrow> bool" where
  "all_return j c [] s = True"
| "all_return j c (m # msgs) s = (returns_in j c m s \<and> all_return j c msgs (state_after j c m s))"

text \<open>
  A sample consumer on the default topics with the two handlers of the service, a decoder
  that knows two decision payloads, of confidence 0.8 and 1.2, and one ranking payload, and
  four messages: a decision and a ranking, each well-formed and malformed. A fifth message
  carries the decision of confidence 1.2.
\<close>

definition sample_consumer :: "state Consumer" where
  "sample_consumer =
     \<lparr>decisionTopic = ''trading.decisions'', rankingTopic = ''trading.rankings'',
      decisionHandler = Some (HandleDecisionEvent std_fmt defaultConfig),
      rankingHandler = Some (HandleRankingEvent std_fmt defaultConfig)\<rparr>"

definition sample_json :: jsonlib where
  "sample_json =
     \<lparr>unmarshalDecision = (\<lambda>v. if v = ''{decision}'' then Inr (sample_decision ''BUY'' (8 / 10))
                               else if v = ''{overconfident}''
                               then Inr (sample_decision ''BUY'' (12 / 10))
                               else Inl ''invalid character''),
      unmarshalRanking = (\<lambda>v. if v = ''{ranking}'' then Inr sample_ranking_event
                              else Inl ''invalid character'')\<rparr>"

definition sample_messages :: "ConsumerMessage list" where
  "sample_messages =
     [\<lparr>Topic = ''trading.decisions'', Value = ''{decision}'', Partition = 0, Offset = 0\<rparr>,
      \<lparr>Topic = ''trading.rankings'', Value = ''not json'', Partition = 0, Offset = 0\<rparr>,
      \<lparr>Topic = ''trading.decisions'', Value = ''not json'', Partition = 0, Offset = 1\<rparr>,
      \<lparr>Topic = ''trading.rankings'', Value = ''{ranking}'', Partition = 0, Offset = 1\<rparr>]"

definition overconfident_message :: ConsumerMessage where
  "overconfident_message =
     \<lparr>Topic = ''trading.decisions'', Value = ''{overconfident}'', Partition = 0, Offset = 2\<rparr>"

section \<open>Quiet hours: the window\<close>

text \<open>
  C4, as amended. For every hour of the day \<open>h\<close> in 0..23 and every window \<open>(start, end)\<close>,
  \<^verbatim>\<open>isQuietHours\<close>, reading a clock whose hour is \<open>h\<close>, returns false when quiet hours are
  disabled; when they are enabled and \<open>start > end\<close> it returns true iff
  \<open>h \<ge> start\<close> or \<open>h < end\<close>; when they are enabled and \<open>start \<le> end\<close> it returns true iff
  \<open>h \<ge> start\<close> and \<open>h < end\<close>. So \<open>h = end\<close> is never quiet, and \<open>h = start\<close> is quiet
  whenever the window is not empty (\<open>start \<noteq> end\<close>); with the window 22 to 7 exactly the
  hours 22, 23 and 0..6 are quiet, with the window 13 to 14 only hour 13 is.
\<close>

theorem isQuietHours_window:
  assumes "0 \<le> h" and "h \<le> 23" and "hour (clock s (ticks s)) = h"
  shows "(\<not> EnableQuietHours cfg \<longrightarrow> \<not> fst (isQuietHours cfg s))
    \<and> (EnableQuietHours cfg \<and> QuietHoursStart cfg > QuietHoursEnd cfg \<longrightarrow>
         (fst (isQuietHours cfg s) \<longleftrightarrow> h \<ge> QuietHoursStart cfg \<or> h < QuietHoursEnd cfg))
    \<and> (EnableQuietHours cfg \<and> QuietHoursStart cfg \<le> QuietHoursEnd cfg \<longrightarrow>
         (fst (isQuietHours cfg s) \<longleftrightarrow> h \<ge> QuietHoursStart cfg \<and> h < QuietHoursEnd cfg))
    \<and> (h = QuietHoursEnd cfg \<longrightarrow> \<not> fst (isQuietHours cfg s))
    \<and> (EnableQuietHours cfg \<and> QuietHoursStart cfg \<noteq> QuietHoursEnd cfg \<and> h = QuietHoursStart cfg \<longrightarrow>
         fst (isQuietHours cfg s))
    \<and> (EnableQuietHours cfg \<and> QuietHoursStart cfg = 22 \<and> QuietHoursEnd cfg = 7 \<longrightarrow>
         (fst (isQuietHours cfg s) \<longleftrightarrow> h \<in> {22, 23, 0, 1, 2, 3, 4, 5, 6}))
    \<and> (EnableQuietHours cfg \<and> QuietHoursStart cfg = 13 \<and> QuietHoursEnd cfg = 14 \<longrightarrow>
         (fst (isQuietHours cfg s) \<longleftrightarrow> h = 13))"
proof -
  have dis: "\<not> EnableQuietHours cfg \<Longrightarrow> \<not> fst (isQuietHours cfg s)"
    by (simp add: isQuietHours_def)
  have en: "EnableQuietHours cfg \<Longrightarrow> fst (isQuietHours cfg s) = quietAt cfg h"
    using assms(3) by (simp add: isQuietHours_def time_Now_def)
  have over: "QuietHoursStart cfg > QuietHoursEnd cfg \<Longrightarrow>
      quietAt cfg h \<longleftrightarrow> h \<ge> QuietHoursStart cfg \<or> h < QuietHoursEnd cfg"
    by (simp add: quietAt_def)
  have same: "QuietHoursStart cfg \<le> QuietHoursEnd cfg \<Longrightarrow>
      quietAt cfg h \<longleftrightarrow> h \<ge> QuietHoursStart cfg \<and> h < QuietHoursEnd cfg"
    by (simp add: quietAt_def)
  have night: "QuietHoursStart cfg = 22 \<Longrightarrow> QuietHoursEnd cfg = 7 \<Longrightarrow>
      quietAt cfg h \<longleftrightarrow> h \<in> {22, 23, 0, 1, 2, 3, 4, 5, 6}"
    using assms(1,2) by (auto simp: quietAt_def)
  have noon: "QuietHoursStart cfg = 13 \<Longrightarrow> QuietHoursEnd cfg = 14 \<Longrightarrow>
      quietAt cfg h \<longleftrightarrow> h = 13"
    by (auto simp: quietAt_def)
  have at_end: "h = QuietHoursEnd cfg \<Longrightarrow> \<not> quietAt cfg h"
    by (auto simp: quietAt_def)
  have at_start: "QuietHoursStart cfg \<noteq> QuietHoursEnd cfg \<Longrightarrow> h = QuietHoursStart cfg \<Longrightarrow>
      quietAt cfg h"
    by (auto simp: quietAt_def)
  show ?thesis
    using dis en over same night noon at_end at_start by blast
qed

text \<open>
  The window theorem at the overnight window 22 to 7 (hour 23 is quiet, hour 7 is not), at
  the same-day window 13 to 14 (hour 13), and with quiet hours disabled.
\<close>

theorem isQuietHours_window_witness:
  "fst (isQuietHours (defaultConfig\<lparr>EnableQuietHours := True\<rparr>)
          (NewAlertService (\<lambda>n. \<lparr>monotonic = 0, hour = 23\<rparr>) (\<lambda>n t. None) (\<lambda>m. [])))
   \<and> \<not> fst (isQuietHours (defaultConfig\<lparr>EnableQuietHours := True\<rparr>)
          (NewAlertService (\<lambda>n. \<lparr>monotonic = 0, hour = 7\<rparr>) (\<lambda>n t. None) (\<lambda>m. [])))
   \<and> fst (isQuietHours
          (defaultConfig\<lparr>EnableQuietHours := True, QuietHoursStart := 13, QuietHoursEnd := 14\<rparr>)
          (NewAlertService (\<lambda>n. \<lparr>monotonic = 0, hour = 13\<rparr>) (\<lambda>n t. None) (\<lambda>m. [])))
   \<and> \<not> fst (isQuietHours defaultConfig
          (NewAlertService (\<lambda>n. \<lparr>monotonic = 0, hour = 23\<rparr>) (\<lambda>n t. None) (\<lambda>m. [])))"
proof -
  let ?s = "\<lambda>h. NewAlertService (\<lambda>n. \<lparr>monotonic = 0, hour = h\<rparr>) (\<lambda>n t. None) (\<lambda>m. [])"
  have h: "\<And>k. hour (clock (?s k) (ticks (?s k))) = k"
    by (simp add: NewAlertService_def)
  note a = isQuietHours_window [of 23 "?s 23" "defaultConfig\<lparr>EnableQuietHours := True\<rparr>"]
  note b = isQuietHours_window [of 7 "?s 7" "defaultConfig\<lparr>EnableQuietHours := True\<rparr>"]
  note c = isQuietHours_window [of 13 "?s 13"
      "defaultConfig\<lparr>EnableQuietHours := True, QuietHoursStart := 13, QuietHoursEnd := 14\<rparr>"]
  note d = isQuietHours_window [of 23 "?s 23" defaultConfig]
  show ?thesis
    using a b c d h by (simp add: defaultConfig_def)
qed

text \<open>
  The claim as stated has \<open>h = start\<close> quiet for every window. With quiet hours enabled and
  the window 5 to 5, the comparison at hour 5 is \<open>5 \<ge> 5\<close> and \<open>5 < 5\<close>: the window is empty
  and its start is not quiet.
\<close>

theorem isQuietHours_empty_window_counterexample:
  "EnableQuietHours (defaultConfig\<lparr>EnableQuietHours := True, QuietHoursStart := 5, QuietHoursEnd := 5\<rparr>)
   \<and> QuietHoursStart (defaultConfig\<lparr>EnableQuietHours := True, QuietHoursStart := 5, QuietHoursEnd := 5\<rparr>)
       \<le> QuietHoursEnd (defaultConfig\<lparr>EnableQuietHours := True, QuietHoursStart := 5, QuietHoursEnd := 5\<rparr>)
   \<and> hour (fst (time_Now (NewAlertService (stopped_clock 5) transport_up (pick_listed []))))
       = QuietHoursStart (defaultConfig\<lparr>EnableQuietHours := True, QuietHoursStart := 5, QuietHoursEnd := 5\<rparr>)
   \<and> \<not> fst (isQuietHours
            (defaultConfig\<lparr>EnableQuietHours := True, QuietHoursStart := 5, QuietHoursEnd := 5\<rparr>)
            (NewAlertService (stopped_clock 5) transport_up (pick_listed [])))"
  by (simp add: isQuietHours_def quietAt_def time_Now_def NewAlertService_def stopped_clock_def
      defaultConfig_def)

section \<open>Rounding to the nearest float64\<close>

lemma rhe_ge: "of_int n \<le> x \<Longrightarrow> n \<le> round_half_even x"
proof -
  assume "of_int n \<le> x"
  then have "n \<le> \<lfloor>x\<rfloor>" by (simp add: le_floor_iff)
  then show ?thesis by (simp add: round_half_even_def Let_def)
qed

lemma rhe_le: "x \<le> of_int n \<Longrightarrow> round_half_even x \<le> n"
proof (cases "x = of_int n")
  case True
  then show ?thesis by (simp add: round_half_even_def Let_def)
next
  case False
  assume "x \<le> of_int n"
  then have "x < of_int n" using False by simp
  then have "\<lfloor>x\<rfloor> < n" by (simp add: floor_less_iff)
  then show ?thesis by (simp add: round_half_even_def Let_def)
qed

lemma rhe_ge_strict: "of_int n + 3 / 4 \<le> x \<Longrightarrow> n + 1 \<le> round_half_even x"
proof -
  assume a: "of_int n + 3 / 4 \<le> x"
  then have fl: "n \<le> \<lfloor>x\<rfloor>" by (simp add: le_floor_iff)
  show ?thesis
  proof (cases "n + 1 \<le> \<lfloor>x\<rfloor>")
    case True
    then show ?thesis by (simp add: round_half_even_def Let_def)
  next
    case False
    then have "\<lfloor>x\<rfloor> = n" using fl by simp
    then have "x - of_int \<lfloor>x\<rfloor> > 1 / 2" using a by simp
    then show ?thesis using \<open>\<lfloor>x\<rfloor> = n\<close> by (simp add: round_half_even_def Let_def)
  qed
qed

lemma rhe_le_strict: "x \<le> of_int n - 3 / 4 \<Longrightarrow> round_half_even x \<le> n - 1"
proof -
  assume a: "x \<le> of_int n - 3 / 4"
  then have "x < of_int n" by simp
  then have fl: "\<lfloor>x\<rfloor> \<le> n - 1" by (simp add: floor_less_iff)
  show ?thesis
  proof (cases "\<lfloor>x\<rfloor> \<le> n - 2")
    case True
    then show ?thesis by (simp add: round_half_even_def Let_def)
  next
    case False
    then have e: "\<lfloor>x\<rfloor> = n - 1" using fl by simp
    then have "x - of_int \<lfloor>x\<rfloor> < 1 / 2" using a by simp
    then show ?thesis using e by (simp add: round_half_even_def Let_def)
  qed
qed

lemma ulp_up_pow:
  "1 \<le> x \<Longrightarrow> \<exists>j. ulp_up x = 2 ^ j / 2 ^ 52 \<and> 2 ^ j \<le> x \<and> x < 2 ^ (j + 1)"
proof (induction x rule: ulp_up.induct)
  case (1 x)
  show ?case
  proof (cases "2 \<le> x")
    case True
    then have "1 \<le> x / 2" by simp
    then obtain j where j: "ulp_up (x / 2) = 2 ^ j / 2 ^ 52" "2 ^ j \<le> x / 2" "x / 2 < 2 ^ (j + 1)"
      using "1.IH" [OF True] by blast
    have "ulp_up x = 2 ^ (Suc j) / 2 ^ 52"
      using True j(1) by (subst ulp_up.simps) simp
    moreover have "2 ^ (Suc j) \<le> x" "x < 2 ^ (Suc j + 1)"
      using j(2,3) by simp_all
    ultimately show ?thesis by blast
  next
    case False
    then have "ulp_up x = 2 ^ 0 / 2 ^ 52"
      by (subst ulp_up.simps) simp
    moreover have "2 ^ 0 \<le> x" "x < 2 ^ (0 + 1)"
      using False "1.prems" by simp_all
    ultimately show ?thesis by blast
  qed
qed

lemma ulp_down_pow:
  "0 < x \<Longrightarrow> x < 1 \<Longrightarrow> \<exists>j. ulp_down x = 1 / 2 ^ (52 + j) \<and> 1 \<le> 2 ^ j * x \<and> 2 ^ j * x < 2"
proof (induction x rule: ulp_down.induct)
  case (1 x)
  show ?case
  proof (cases "2 * x < 1")
    case True
    then obtain j where j: "ulp_down (2 * x) = 1 / 2 ^ (52 + j)" "1 \<le> 2 ^ j * (2 * x)"
        "2 ^ j * (2 * x) < 2"
      using "1.IH" "1.prems" by fastforce
    have "ulp_down x = 1 / 2 ^ (52 + Suc j)"
      using "1.prems" j(1) by (subst ulp_down.simps) (simp add: power_add)
    moreover have "1 \<le> 2 ^ (Suc j) * x" "2 ^ (Suc j) * x < 2"
      using j(2,3) by (simp_all add: mult.assoc)
    ultimately show ?thesis by blast
  next
    case False
    then have "ulp_down (2 * x) = 1 / 2 ^ 52"
      by (subst ulp_down.simps) simp
    then have "ulp_down x = 1 / 2 ^ (52 + 1)"
      using "1.prems" by (subst ulp_down.simps) (simp add: power_add)
    moreover have "1 \<le> 2 ^ 1 * x" "2 ^ 1 * x < 2"
      using False "1.prems" by simp_all
    ultimately show ?thesis by blast
  qed
qed


lemma rhe_lower: "y - 1 / 2 \<le> of_int (round_half_even y)"
proof -
  have a: "y < of_int \<lfloor>y\<rfloor> + 1" "of_int \<lfloor>y\<rfloor> \<le> y"
    by linarith+
  consider "y - of_int \<lfloor>y\<rfloor> < 1 / 2" | "y - of_int \<lfloor>y\<rfloor> > 1 / 2" | "y - of_int \<lfloor>y\<rfloor> = 1 / 2"
    by linarith
  then show ?thesis
  proof cases
    case 1
    then have "round_half_even y = \<lfloor>y\<rfloor>" by (simp add: round_half_even_def Let_def)
    then have "of_int (round_half_even y) = (of_int \<lfloor>y\<rfloor> :: rat)" by simp
    then show ?thesis using a 1 by linarith
  next
    case 2
    then have "round_half_even y = \<lfloor>y\<rfloor> + 1" by (simp add: round_half_even_def Let_def)
    then have "of_int (round_half_even y) = (of_int \<lfloor>y\<rfloor> + 1 :: rat)" by simp
    then show ?thesis using a by linarith
  next
    case 3
    then have "round_half_even y = \<lfloor>y\<rfloor> \<or> round_half_even y = \<lfloor>y\<rfloor> + 1"
      by (simp add: round_half_even_def Let_def)
    then have "of_int (round_half_even y) = (of_int \<lfloor>y\<rfloor> :: rat)
        \<or> of_int (round_half_even y) = (of_int \<lfloor>y\<rfloor> + 1 :: rat)" by auto
    then show ?thesis using a 3 by linarith
  qed
qed

lemma rhe_upper: "of_int (round_half_even y) \<le> y + 1 / 2"
proof -
  have a: "y < of_int \<lfloor>y\<rfloor> + 1" "of_int \<lfloor>y\<rfloor> \<le> y"
    by linarith+
  consider "y - of_int \<lfloor>y\<rfloor> < 1 / 2" | "y - of_int \<lfloor>y\<rfloor> > 1 / 2" | "y - of_int \<lfloor>y\<rfloor> = 1 / 2"
    by linarith
  then show ?thesis
  proof cases
    case 1
    then have "round_half_even y = \<lfloor>y\<rfloor>" by (simp add: round_half_even_def Let_def)
    then have "of_int (round_half_even y) = (of_int \<lfloor>y\<rfloor> :: rat)" by simp
    then show ?thesis using a by linarith
  next
    case 2
    then have "round_half_even y = \<lfloor>y\<rfloor> + 1" by (simp add: round_half_even_def Let_def)
    then have "of_int (round_half_even y) = (of_int \<lfloor>y\<rfloor> + 1 :: rat)" by simp
    then show ?thesis using a 2 by linarith
  next
    case 3
    then have "round_half_even y = \<lfloor>y\<rfloor> \<or> round_half_even y = \<lfloor>y\<rfloor> + 1"
      by (simp add: round_half_even_def Let_def)
    then have "of_int (round_half_even y) = (of_int \<lfloor>y\<rfloor> :: rat)
        \<or> of_int (round_half_even y) = (of_int \<lfloor>y\<rfloor> + 1 :: rat)" by auto
    then show ?thesis using a 3 by linarith
  qed
qed

lemma min_normal_bounds: "0 < min_normal" "min_normal \<le> 1 / 16"
proof -
  show "0 < min_normal" by (simp add: min_normal_def)
  have "(2::rat) ^ 4 \<le> 2 ^ 1022"
    by (rule power_increasing) simp_all
  then show "min_normal \<le> 1 / 16"
    by (simp add: min_normal_def field_simps)
qed

lemma min_subnormal_bounds: "0 < min_subnormal" "min_subnormal \<le> 1 / 2 ^ 53"
proof -
  show "0 < min_subnormal" by (simp add: min_subnormal_def)
  have "(2::rat) ^ 53 \<le> 2 ^ 1074"
    by (rule power_increasing) simp_all
  then show "min_subnormal \<le> 1 / 2 ^ 53"
    unfolding min_subnormal_def by (intro divide_left_mono) simp_all
qed

lemma ulp_cases:
  obtains (sub) "\<bar>x\<bar> < min_normal" "ulp x = min_subnormal"
  | (up) j where "1 \<le> \<bar>x\<bar>" "ulp x = 2 ^ j / 2 ^ 52" "2 ^ j \<le> \<bar>x\<bar>" "\<bar>x\<bar> < 2 ^ (j + 1)"
  | (down) j where "min_normal \<le> \<bar>x\<bar>" "\<bar>x\<bar> < 1" "ulp x = 1 / 2 ^ (52 + j)"
      "1 \<le> 2 ^ j * \<bar>x\<bar>" "2 ^ j * \<bar>x\<bar> < 2"
proof (cases "1 \<le> \<bar>x\<bar>")
  case True
  then obtain j where "ulp_up \<bar>x\<bar> = 2 ^ j / 2 ^ 52" "2 ^ j \<le> \<bar>x\<bar>" "\<bar>x\<bar> < 2 ^ (j + 1)"
    using ulp_up_pow by blast
  then show ?thesis using up True by (simp add: ulp_def)
next
  case False
  show ?thesis
  proof (cases "\<bar>x\<bar> < min_normal")
    case True
    then show ?thesis using sub False by (simp add: ulp_def)
  next
    case F2: False
    then have "0 < \<bar>x\<bar>" "\<bar>x\<bar> < 1"
      using False min_normal_bounds(1) by linarith+
    then obtain j where "ulp_down \<bar>x\<bar> = 1 / 2 ^ (52 + j)" "1 \<le> 2 ^ j * \<bar>x\<bar>" "2 ^ j * \<bar>x\<bar> < 2"
      using ulp_down_pow by blast
    then show ?thesis using down F2 False by (simp add: ulp_def)
  qed
qed

lemma ulp_pos: "0 < ulp x"
  by (cases x rule: ulp_cases) (simp_all add: min_subnormal_bounds)

lemma round_float64_ge:
  assumes "y = of_int n * ulp x" and "y \<le> x"
  shows "y \<le> round_float64 x"
proof -
  have "of_int n \<le> x / ulp x"
    using assms ulp_pos [of x] by (simp add: pos_le_divide_eq)
  then have "n \<le> round_half_even (x / ulp x)"
    by (rule rhe_ge)
  then have "of_int n * ulp x \<le> of_int (round_half_even (x / ulp x)) * ulp x"
    using ulp_pos [of x] by simp
  then show ?thesis
    using assms by (simp add: round_float64_def)
qed

lemma round_float64_le:
  assumes "y = of_int n * ulp x" and "x \<le> y"
  shows "round_float64 x \<le> y"
proof -
  have "x / ulp x \<le> of_int n"
    using assms ulp_pos [of x] by (simp add: pos_divide_le_eq)
  then have "round_half_even (x / ulp x) \<le> n"
    by (rule rhe_le)
  then have "of_int (round_half_even (x / ulp x)) * ulp x \<le> of_int n * ulp x"
    using ulp_pos [of x] by simp
  then show ?thesis
    using assms by (simp add: round_float64_def)
qed

lemma round_float64_err:
  "x - ulp x / 2 \<le> round_float64 x" "round_float64 x \<le> x + ulp x / 2"
proof -
  have q: "0 < ulp x" by (rule ulp_pos)
  have e1: "(x / ulp x - 1 / 2) * ulp x = x - ulp x / 2"
    using q by (simp add: left_diff_distrib)
  have e2: "(x / ulp x + 1 / 2) * ulp x = x + ulp x / 2"
    using q by (simp add: distrib_right)
  have "(x / ulp x - 1 / 2) * ulp x \<le> of_int (round_half_even (x / ulp x)) * ulp x"
    using rhe_lower [of "x / ulp x"] q by (simp only: mult_le_cancel_right_pos)
  then show "x - ulp x / 2 \<le> round_float64 x"
    unfolding e1 round_float64_def .
  have "of_int (round_half_even (x / ulp x)) * ulp x \<le> (x / ulp x + 1 / 2) * ulp x"
    using rhe_upper [of "x / ulp x"] q by (simp only: mult_le_cancel_right_pos)
  then show "round_float64 x \<le> x + ulp x / 2"
    unfolding e2 round_float64_def .
qed

lemma exp_lt: "(2::rat) ^ j < 2 ^ k \<Longrightarrow> j < k"
  by (simp add: power_strict_increasing_iff)

lemma ulp_below_16:
  assumes "\<bar>x\<bar> < 16"
  shows "\<exists>m::int. 1 = of_int m * ulp x" and "ulp x \<le> 1 / 2 ^ 49"
proof -
  have both: "(\<exists>m::int. 1 = of_int m * ulp x) \<and> ulp x \<le> 1 / 2 ^ 49"
  proof (cases x rule: ulp_cases)
    case sub
    have "(1::rat) = of_int (2 ^ 1074) * min_subnormal"
      by (simp add: min_subnormal_def)
    moreover have "min_subnormal \<le> 1 / 2 ^ 49"
      using min_subnormal_bounds(2) by simp
    ultimately show ?thesis using sub by metis
  next
    case (up j)
    then have "(2::rat) ^ j < 2 ^ 4" using assms by simp
    then have j: "j < 4" by (rule exp_lt)
    then have "(2::rat) ^ (52 - j) * 2 ^ j = 2 ^ 52"
      by (simp add: power_add [symmetric])
    then have "(1::rat) = of_int (2 ^ (52 - j)) * (2 ^ j / 2 ^ 52)"
      by simp
    moreover have "(2::rat) ^ j \<le> 2 ^ 3"
      using j by (intro power_increasing) simp_all
    then have "(2::rat) ^ j / 2 ^ 52 \<le> 1 / 2 ^ 49"
      by simp
    ultimately show ?thesis using up by metis
  next
    case (down j)
    have "(1::rat) = of_int (2 ^ (52 + j)) * (1 / 2 ^ (52 + j))"
      by simp
    moreover have "(2::rat) ^ 49 \<le> 2 ^ (52 + j)"
      by (intro power_increasing) simp_all
    then have "(1::rat) / 2 ^ (52 + j) \<le> 1 / 2 ^ 49"
      by (intro divide_left_mono) simp_all
    ultimately show ?thesis using down by metis
  qed
  show "\<exists>m::int. 1 = of_int m * ulp x" using both by blast
  show "ulp x \<le> 1 / 2 ^ 49" using both by blast
qed

lemma ulp_below_1:
  assumes "\<bar>x\<bar> < 1"
  shows "ulp x \<le> 1 / 2 ^ 53"
proof (cases x rule: ulp_cases)
  case sub
  then show ?thesis using min_subnormal_bounds(2) by simp
next
  case (up j)
  then show ?thesis using assms by simp
next
  case (down j)
  have "j \<noteq> 0"
    using down assms by (cases j) simp_all
  then have "(2::rat) ^ 53 \<le> 2 ^ (52 + j)"
    by (intro power_increasing) simp_all
  then have "(1::rat) / 2 ^ (52 + j) \<le> 1 / 2 ^ 53"
    by (intro divide_left_mono) simp_all
  then show ?thesis using down by simp
qed

lemma round_float64_beyond_16:
  "16 \<le> x \<Longrightarrow> 16 \<le> round_float64 x" "x \<le> - 16 \<Longrightarrow> round_float64 x \<le> - 16"
proof -
  have big: "\<exists>j. ulp x = 2 ^ j / 2 ^ 52 \<and> 2 ^ j \<le> \<bar>x\<bar> \<and> (16::rat) \<le> 2 ^ j" if "16 \<le> \<bar>x\<bar>"
  proof (cases x rule: ulp_cases)
    case sub
    then show ?thesis using that min_normal_bounds(2) by simp
  next
    case (up j)
    then have "(2::rat) ^ 4 < 2 ^ (j + 1)" using that by simp
    then have "4 < j + 1" by (rule exp_lt)
    then have "(2::rat) ^ 4 \<le> 2 ^ j"
      by (intro power_increasing) simp_all
    then show ?thesis using up by auto
  next
    case (down j)
    then show ?thesis using that by simp
  qed
  {
    assume a: "16 \<le> x"
    then obtain j where j: "ulp x = 2 ^ j / 2 ^ 52" "2 ^ j \<le> \<bar>x\<bar>" "(16::rat) \<le> 2 ^ j"
      using big by fastforce
    have "(2::rat) ^ j = of_int (2 ^ 52) * ulp x"
      using j(1) by simp
    moreover have "(2::rat) ^ j \<le> x" using j(2) a by simp
    ultimately have "2 ^ j \<le> round_float64 x"
      by (rule round_float64_ge)
    then show "16 \<le> round_float64 x" using j(3) by simp
  }
  {
    assume a: "x \<le> - 16"
    then obtain j where j: "ulp x = 2 ^ j / 2 ^ 52" "2 ^ j \<le> \<bar>x\<bar>" "(16::rat) \<le> 2 ^ j"
      using big by fastforce
    have "- ((2::rat) ^ j) = of_int (- (2 ^ 52)) * ulp x"
      using j(1) by simp
    moreover have "x \<le> - ((2::rat) ^ j)" using j(2) a by simp
    ultimately have "round_float64 x \<le> - (2 ^ j)"
      by (rule round_float64_le)
    then show "round_float64 x \<le> - 16" using j(3) by simp
  }
qed

lemma round_float64_ge_int:
  assumes "- 1 \<le> n" and "n \<le> 11" and "of_int n \<le> x"
  shows "of_int n \<le> round_float64 x"
proof (cases "x < 16")
  case True
  then have "\<bar>x\<bar> < 16" using assms by simp
  then obtain m :: int where "1 = of_int m * ulp x"
    using ulp_below_16(1) by blast
  then have "of_int n = of_int (n * m) * ulp x"
    by (simp add: mult.assoc [symmetric])
  then show ?thesis using assms(3) by (rule round_float64_ge)
next
  case False
  then have "16 \<le> round_float64 x"
    using round_float64_beyond_16(1) by simp
  moreover have "(of_int n :: rat) \<le> 16" using assms(2) by simp
  ultimately show ?thesis by simp
qed

lemma round_float64_le_int:
  assumes "- 1 \<le> n" and "n \<le> 11" and "x \<le> of_int n"
  shows "round_float64 x \<le> of_int n"
proof (cases "- 16 < x")
  case True
  then have "\<bar>x\<bar> < 16" using assms by simp
  then obtain m :: int where "1 = of_int m * ulp x"
    using ulp_below_16(1) by blast
  then have "of_int n = of_int (n * m) * ulp x"
    by (simp add: mult.assoc [symmetric])
  then show ?thesis using assms(3) by (rule round_float64_le)
next
  case False
  then have "round_float64 x \<le> - 16"
    using round_float64_beyond_16(2) by simp
  moreover have "- 16 \<le> (of_int n :: rat)" using assms(1) by simp
  ultimately show ?thesis by simp
qed


lemma round_float64_above_minus_one:
  assumes "- 1 + 6 / 2 ^ 56 \<le> x"
  shows "- 1 < round_float64 x"
proof (cases "0 \<le> x")
  case True
  then have "of_int 0 \<le> round_float64 x"
    by (intro round_float64_ge_int) simp_all
  then show ?thesis by simp
next
  case False
  then have "\<bar>x\<bar> < 1" using assms by simp
  then have "ulp x \<le> 1 / 2 ^ 53" by (rule ulp_below_1)
  then have "x - 1 / 2 ^ 54 \<le> round_float64 x"
    using round_float64_err(1) [of x] by simp
  then show ?thesis using assms by simp
qed

lemma round_float64_below_11:
  assumes "x \<le> 11 - 6 / 2 ^ 52"
  shows "round_float64 x < 11"
proof (cases "- 16 < x")
  case True
  then have "\<bar>x\<bar> < 16" using assms by simp
  then have "ulp x \<le> 1 / 2 ^ 49" by (rule ulp_below_16(2))
  then have "round_float64 x \<le> x + 1 / 2 ^ 50"
    using round_float64_err(2) [of x] by simp
  then show ?thesis using assms by simp
next
  case False
  then have "round_float64 x \<le> - 16"
    using round_float64_beyond_16(2) by simp
  then show ?thesis by simp
qed

lemma float64_grid_56:
  assumes "is_float64 c" and "1 / 16 \<le> \<bar>c\<bar>"
  shows "\<exists>K::int. c = of_int K / 2 ^ 56"
proof -
  have c: "c = of_int (round_half_even (c / ulp c)) * ulp c"
    using assms(1) by (simp add: is_float64_def round_float64_def)
  have "\<exists>i. ulp c = 2 ^ i / 2 ^ 56"
  proof (cases c rule: ulp_cases)
    case sub
    then show ?thesis using assms(2) min_normal_bounds(2) by simp
  next
    case (up j)
    have "(2::rat) ^ j / 2 ^ 52 = 2 ^ (j + 4) / 2 ^ 56"
      by (simp add: power_add)
    then show ?thesis using up by metis
  next
    case (down j)
    have "(2::rat) ^ j * (1 / 16) \<le> 2 ^ j * \<bar>c\<bar>"
      using assms(2) by (intro mult_left_mono) simp_all
    then have "(2::rat) ^ j * (1 / 16) < 2"
      using down(5) by (rule le_less_trans)
    then have "(2::rat) ^ j < 2 ^ 5"
      by simp
    then have "j < 5" by (rule exp_lt)
    then have "(2::rat) ^ (4 - j) * 2 ^ (52 + j) = 2 ^ 56"
      by (simp add: power_add [symmetric])
    then have "(1::rat) / 2 ^ (52 + j) = 2 ^ (4 - j) / 2 ^ 56"
      by (simp add: field_simps)
    then show ?thesis using down by metis
  qed
  then obtain i where u: "ulp c = 2 ^ i / 2 ^ 56" by blast
  define R where "R = round_half_even (c / ulp c)"
  have "c = of_int R * ulp c"
    using c by (simp add: R_def)
  then have "c = of_int R * (2 ^ i / 2 ^ 56)"
    by (simp only: u)
  then have "c = of_int (R * 2 ^ i) / 2 ^ 56"
    by simp
  then show ?thesis by blast
qed

lemma float64_grid_52:
  assumes "is_float64 c" and "1 \<le> \<bar>c\<bar>"
  shows "\<exists>K::int. c = of_int K / 2 ^ 52"
proof -
  have c: "c = of_int (round_half_even (c / ulp c)) * ulp c"
    using assms(1) by (simp add: is_float64_def round_float64_def)
  have "\<exists>i. ulp c = 2 ^ i / 2 ^ 52"
  proof (cases c rule: ulp_cases)
    case sub
    then show ?thesis using assms(2) min_normal_bounds(2) by simp
  next
    case (up j)
    then show ?thesis by metis
  next
    case (down j)
    then show ?thesis using assms(2) by simp
  qed
  then obtain i where u: "ulp c = 2 ^ i / 2 ^ 52" by blast
  define R where "R = round_half_even (c / ulp c)"
  have "c = of_int R * ulp c"
    using c by (simp add: R_def)
  then have "c = of_int R * (2 ^ i / 2 ^ 52)"
    by (simp only: u)
  then have "c = of_int (R * 2 ^ i) / 2 ^ 52"
    by simp
  then show ?thesis by blast
qed

lemma round_half_even_int: "round_half_even (of_int n) = n"
  by (simp add: round_half_even_def)

lemma round_float64_int:
  assumes "\<bar>of_int n :: rat\<bar> < 16"
  shows "round_float64 (of_int n) = of_int n"
proof -
  obtain m :: int where "1 = of_int m * ulp (of_int n)"
    using ulp_below_16(1) [OF assms] by blast
  then have m: "of_int n = of_int (n * m) * ulp (of_int n)"
    by (simp add: mult.assoc [symmetric])
  have "of_int n \<le> round_float64 (of_int n)"
    by (rule round_float64_ge [OF m]) simp
  moreover have "round_float64 (of_int n) \<le> of_int n"
    by (rule round_float64_le [OF m]) simp
  ultimately show ?thesis by simp
qed

lemma ulp_binade_up:
  assumes "2 ^ j \<le> \<bar>x\<bar>" and "\<bar>x\<bar> < 2 ^ (j + 1)"
  shows "ulp x = 2 ^ j / 2 ^ 52"
proof (cases x rule: ulp_cases)
  case sub
  have "(1::rat) \<le> 2 ^ j" by simp
  then have False using sub(1) assms(1) min_normal_bounds(2) by linarith
  then show ?thesis by simp
next
  case (up i)
  have "(2::rat) ^ i < 2 ^ (j + 1)" using up(3) assms(2) by simp
  then have "i < j + 1" by (rule exp_lt)
  moreover have "(2::rat) ^ j < 2 ^ (i + 1)" using up(4) assms(1) by simp
  then have "j < i + 1" by (rule exp_lt)
  ultimately have "i = j" by simp
  then show ?thesis using up by simp
next
  case (down i)
  have "(1::rat) \<le> 2 ^ j" by simp
  then have False using down(2) assms(1) by linarith
  then show ?thesis by simp
qed

lemma ulp_binade_down:
  assumes "1 \<le> 2 ^ j * \<bar>x\<bar>" and "2 ^ j * \<bar>x\<bar> < 2" and "0 < j" and "j \<le> 1022"
  shows "ulp x = 1 / 2 ^ (52 + j)"
proof -
  have two: "(2::rat) \<le> 2 ^ j"
    using assms(3) power_increasing [of 1 j "2::rat"] by simp
  then have "2 * \<bar>x\<bar> \<le> 2 ^ j * \<bar>x\<bar>"
    by (intro mult_right_mono) simp_all
  then have lt1: "\<bar>x\<bar> < 1" using assms(2) by simp
  have "(2::rat) ^ j \<le> 2 ^ 1022"
    using assms(4) by (intro power_increasing) simp_all
  then have "2 ^ j * \<bar>x\<bar> \<le> 2 ^ 1022 * \<bar>x\<bar>"
    by (intro mult_right_mono) simp_all
  then have "1 \<le> 2 ^ 1022 * \<bar>x\<bar>" using assms(1) by simp
  then have normal: "min_normal \<le> \<bar>x\<bar>"
    by (simp add: min_normal_def field_simps)
  show ?thesis
  proof (cases x rule: ulp_cases)
    case sub
    then show ?thesis using normal by simp
  next
    case (up i)
    then show ?thesis using lt1 by simp
  next
    case (down i)
    have pos: "0 < \<bar>x\<bar>" using down(1) min_normal_bounds(1) by simp
    have "2 ^ i * \<bar>x\<bar> < 2 ^ (j + 1) * \<bar>x\<bar>"
      using down(5) assms(1) by simp
    then have "(2::rat) ^ i < 2 ^ (j + 1)"
      using pos by (simp only: mult_less_cancel_right_pos)
    then have "i < j + 1" by (rule exp_lt)
    moreover have "2 ^ j * \<bar>x\<bar> < 2 ^ (i + 1) * \<bar>x\<bar>"
      using down(4) assms(2) by simp
    then have "(2::rat) ^ j < 2 ^ (i + 1)"
      using pos by (simp only: mult_less_cancel_right_pos)
    then have "j < i + 1" by (rule exp_lt)
    ultimately have "i = j" by simp
    then show ?thesis using down by simp
  qed
qed

lemma round_half_even_near:
  assumes "of_int n - 1 / 2 < y" and "y < of_int n + 1 / 2"
  shows "round_half_even y = n"
proof -
  have "of_int (round_half_even y) < (of_int (n + 1) :: rat)"
    using rhe_upper [of y] assms(2) by simp
  moreover have "(of_int (n - 1) :: rat) < of_int (round_half_even y)"
    using rhe_lower [of y] assms(1) by simp
  ultimately have "round_half_even y < n + 1" "n - 1 < round_half_even y"
    by (simp_all only: of_int_less_iff)
  then show ?thesis by simp
qed

lemma round_float64_up_eq:
  assumes "2 ^ j \<le> \<bar>x\<bar>" and "\<bar>x\<bar> < 2 ^ (j + 1)"
    and "of_int n - 1 / 2 < x / (2 ^ j / 2 ^ 52)" and "x / (2 ^ j / 2 ^ 52) < of_int n + 1 / 2"
  shows "round_float64 x = of_int n * (2 ^ j / 2 ^ 52)"
proof -
  have u: "ulp x = 2 ^ j / 2 ^ 52"
    using assms(1,2) by (rule ulp_binade_up)
  have "round_half_even (x / (2 ^ j / 2 ^ 52)) = n"
    using assms(3,4) by (rule round_half_even_near)
  then show ?thesis
    by (simp only: round_float64_def u)
qed

lemma round_float64_down_eq:
  assumes "1 \<le> 2 ^ j * \<bar>x\<bar>" and "2 ^ j * \<bar>x\<bar> < 2" and "0 < j" and "j \<le> 1022"
    and "of_int n - 1 / 2 < x / (1 / 2 ^ (52 + j))" and "x / (1 / 2 ^ (52 + j)) < of_int n + 1 / 2"
  shows "round_float64 x = of_int n * (1 / 2 ^ (52 + j))"
proof -
  have u: "ulp x = 1 / 2 ^ (52 + j)"
    using assms(1-4) by (rule ulp_binade_down)
  have "round_half_even (x / (1 / 2 ^ (52 + j))) = n"
    using assms(5,6) by (rule round_half_even_near)
  then show ?thesis
    by (simp only: round_float64_def u)
qed

section \<open>The number of filled segments\<close>

lemma filled_negative:
  assumes "is_float64 c"
  shows "int_of_float64 (float64_mul c 10) < 0 \<longleftrightarrow> c \<le> - 1 / 10"
proof
  assume "c \<le> - 1 / 10"
  then have "c * 10 \<le> of_int (- 1)" by simp
  then have "round_float64 (c * 10) \<le> of_int (- 1)"
    by (intro round_float64_le_int) simp_all
  then have "round_float64 (c * 10) \<le> - 1" by simp
  then have "\<lceil>round_float64 (c * 10)\<rceil> \<le> - 1"
    by (simp add: ceiling_le_iff)
  then show "int_of_float64 (float64_mul c 10) < 0"
    using \<open>round_float64 (c * 10) \<le> - 1\<close> by (simp add: int_of_float64_def float64_mul_def)
next
  assume neg: "int_of_float64 (float64_mul c 10) < 0"
  show "c \<le> - 1 / 10"
  proof (rule ccontr)
    assume "\<not> c \<le> - 1 / 10"
    then have gt: "- 1 / 10 < c" by simp
    have "- 1 + 6 / 2 ^ 56 \<le> c * 10"
    proof (cases "- 1 / 16 \<le> c")
      case True
      then show ?thesis by simp
    next
      case False
      then have "1 / 16 \<le> \<bar>c\<bar>" by simp
      then obtain K :: int where K: "c = of_int K / 2 ^ 56"
        using float64_grid_56 [OF assms] by blast
      have "(- 72057594037927936 :: rat) < of_int (10 * K)"
        using gt by (simp add: K field_simps)
      then have "- 72057594037927936 < 10 * K"
        by (metis of_int_less_iff of_int_minus of_int_numeral)
      then have "- 72057594037927930 \<le> 10 * K" by presburger
      then have "(- 72057594037927930 :: rat) \<le> of_int (10 * K)"
        by (metis of_int_le_iff of_int_minus of_int_numeral)
      then show ?thesis by (simp add: K field_simps)
    qed
    then have "- 1 < round_float64 (c * 10)"
      by (rule round_float64_above_minus_one)
    then have "0 \<le> int_of_float64 (float64_mul c 10)"
      by (simp add: int_of_float64_def float64_mul_def le_ceiling_iff)
    then show False using neg by simp
  qed
qed

lemma filled_above:
  assumes "is_float64 c"
  shows "int_of_float64 (float64_mul c 10) > 10 \<longleftrightarrow> c \<ge> 11 / 10"
proof
  assume "11 / 10 \<le> c"
  then have "of_int 11 \<le> c * 10" by simp
  then have "of_int 11 \<le> round_float64 (c * 10)"
    by (intro round_float64_ge_int) simp_all
  then have "11 \<le> round_float64 (c * 10)" by simp
  then have "11 \<le> \<lfloor>round_float64 (c * 10)\<rfloor>"
    by (simp add: le_floor_iff)
  then show "int_of_float64 (float64_mul c 10) > 10"
    using \<open>11 \<le> round_float64 (c * 10)\<close> by (simp add: int_of_float64_def float64_mul_def)
next
  assume big: "int_of_float64 (float64_mul c 10) > 10"
  show "11 / 10 \<le> c"
  proof (rule ccontr)
    assume "\<not> 11 / 10 \<le> c"
    then have lt: "c < 11 / 10" by simp
    have "c * 10 \<le> 11 - 6 / 2 ^ 52"
    proof (cases "c \<le> 1")
      case True
      then show ?thesis by simp
    next
      case False
      then have "1 \<le> \<bar>c\<bar>" by simp
      then obtain K :: int where K: "c = of_int K / 2 ^ 52"
        using float64_grid_52 [OF assms] by blast
      have "of_int (10 * K) < (49539595901075456 :: rat)"
        using lt by (simp add: K field_simps)
      then have "10 * K < 49539595901075456"
        by (metis of_int_less_iff of_int_numeral)
      then have "10 * K \<le> 49539595901075450" by presburger
      then have "of_int (10 * K) \<le> (49539595901075450 :: rat)"
        by (metis of_int_le_iff of_int_numeral)
      then show ?thesis by (simp add: K field_simps)
    qed
    then have "round_float64 (c * 10) < 11"
      by (rule round_float64_below_11)
    then have "int_of_float64 (float64_mul c 10) \<le> 10"
      by (simp add: int_of_float64_def float64_mul_def floor_le_iff ceiling_le_iff)
    then show False using big by simp
  qed
qed


section \<open>The confidence bar: when it renders\<close>

lemma formatConfidenceBar_in_range:
  assumes "0 \<le> int_of_float64 (float64_mul c 10)" and "int_of_float64 (float64_mul c 10) \<le> 10"
  shows "formatConfidenceBar c =
           Inr (concat (replicate (nat (int_of_float64 (float64_mul c 10))) full_block
                        @ replicate (nat (10 - int_of_float64 (float64_mul c 10))) light_shade))"
  using assms by (simp add: formatConfidenceBar_def strings_Repeat_def Let_def)

lemma formatConfidenceBar_out_of_range:
  assumes "int_of_float64 (float64_mul c 10) < 0 \<or> int_of_float64 (float64_mul c 10) > 10"
  shows "formatConfidenceBar c = Inl ''strings: negative Repeat count''"
  using assms by (auto simp: formatConfidenceBar_def strings_Repeat_def Let_def)

lemma filled_whole:
  assumes "c * 10 = of_int n" and "\<bar>of_int n :: rat\<bar> < 16"
  shows "int_of_float64 (float64_mul c 10) = n"
proof -
  have "float64_mul c 10 = of_int n"
    using round_float64_int [OF assms(2)] assms(1) by (simp add: float64_mul_def)
  then show ?thesis
    by (simp add: int_of_float64_def)
qed



lemma filled_8: "int_of_float64 (float64_mul (4 / 5) 10) = 8"
  using filled_whole [of "4 / 5" 8] by simp

lemma formatDecisionMessage_renders:
  assumes "0 \<le> int_of_float64 (float64_mul (Confidence (Data d)) 10)"
    and "int_of_float64 (float64_mul (Confidence (Data d)) 10) \<le> 10"
  shows "\<exists>message. formatDecisionMessage f kvs d = Inr message"
  using formatConfidenceBar_in_range [OF assms]
  by (simp add: formatDecisionMessage_def Let_def)

lemma sample_decision_renders:
  "\<exists>message. formatDecisionMessage f kvs (sample_decision signal (8 / 10)) = Inr message"
  by (rule formatDecisionMessage_renders) (simp_all add: sample_decision_def filled_8)

section \<open>Frame lemmas\<close>

lemma log_Printf_frame:
  "cooldowns (log_Printf e s) = cooldowns s"
  "sent (log_Printf e s) = sent s"
  "ticks (log_Printf e s) = ticks s"
  "logs (log_Printf e s) = logs s @ [e]"
  by (simp_all add: log_Printf_def)

lemma checkCooldown_frame:
  "cooldowns (snd (checkCooldown cfg symbol s)) = cooldowns s"
  "sent (snd (checkCooldown cfg symbol s)) = sent s"
  "transport (snd (checkCooldown cfg symbol s)) = transport s"
  "clock (snd (checkCooldown cfg symbol s)) = clock s"
  "range_pick (snd (checkCooldown cfg symbol s)) = range_pick s"
  "logs (snd (checkCooldown cfg symbol s)) = logs s"
  by (simp_all add: checkCooldown_def time_Since_def time_Now_def split: option.splits)

lemma isQuietHours_frame:
  "cooldowns (snd (isQuietHours cfg s)) = cooldowns s"
  "sent (snd (isQuietHours cfg s)) = sent s"
  "transport (snd (isQuietHours cfg s)) = transport s"
  "clock (snd (isQuietHours cfg s)) = clock s"
  "range_pick (snd (isQuietHours cfg s)) = range_pick s"
  "logs (snd (isQuietHours cfg s)) = logs s"
  by (simp_all add: isQuietHours_def time_Now_def)

lemma after_gates_frame:
  "cooldowns (after_gates cfg d s) = cooldowns s"
  "sent (after_gates cfg d s) = sent s"
  "transport (after_gates cfg d s) = transport s"
  "clock (after_gates cfg d s) = clock s"
  "range_pick (after_gates cfg d s) = range_pick s"
  "logs (after_gates cfg d s) = logs s"
  by (simp_all add: after_gates_def isQuietHours_frame checkCooldown_frame)

lemma setCooldown_records:
  "cooldowns (setCooldown symbol s) = (cooldowns s)(symbol \<mapsto> clock s (ticks s))"
  "ticks (setCooldown symbol s) = Suc (ticks s)"
  "clock (setCooldown symbol s) = clock s"
  "sent (setCooldown symbol s) = sent s"
  by (simp_all add: setCooldown_def time_Now_def)

section \<open>The cooldown window\<close>

lemma wrap64_id: "- (2 ^ 63) \<le> x \<Longrightarrow> x < 2 ^ 63 \<Longrightarrow> wrap64 x = x"
  by (simp add: wrap64_def)

lemma cooldownDuration_exact:
  "0 < CooldownMinutes cfg \<Longrightarrow> CooldownMinutes cfg \<le> 153722867 \<Longrightarrow>
   cooldownDuration cfg = CooldownMinutes cfg * Minute"
  by (simp add: cooldownDuration_def wrap64_id Minute_def)

lemma checkCooldown_Some:
  assumes "cooldowns s symbol = Some t0"
  shows "fst (checkCooldown cfg symbol s) \<longleftrightarrow>
           time_Sub (clock s (ticks s)) t0 \<ge> cooldownDuration cfg"
  using assms by (simp add: checkCooldown_def time_Since_def time_Now_def)

lemma time_Sub_ge:
  assumes "d \<le> maxDuration" and "minDuration < d"
  shows "time_Sub t u \<ge> d \<longleftrightarrow> monotonic t - monotonic u \<ge> d"
  using assms by (auto simp: time_Sub_def Let_def)

text \<open>
  C3, as amended. For every symbol and every \<^verbatim>\<open>CooldownMinutes\<close> from 1 to 153722867 (the
  largest number of minutes whose nanoseconds fit the 64-bit \<^verbatim>\<open>Duration\<close>): on a fresh
  service, and whenever no entry is recorded for the symbol, \<^verbatim>\<open>checkCooldown\<close> returns true; \<^verbatim>\<open>setCooldown\<close> records the
  reading of the clock; if the next reading of the clock shows no time elapsed,
  \<^verbatim>\<open>checkCooldown\<close> returns false; and with an entry recorded, \<^verbatim>\<open>checkCooldown\<close> returns
  true exactly when the time elapsed since the recorded reading is at least
  \<^verbatim>\<open>CooldownMinutes\<close> minutes, equality included.
\<close>

theorem checkCooldown_window:
  assumes "0 < CooldownMinutes cfg" and "CooldownMinutes cfg \<le> 153722867"
  shows "fst (checkCooldown cfg symbol (NewAlertService clk tr rp))
    \<and> (cooldowns s symbol = None \<longrightarrow> fst (checkCooldown cfg symbol s))
    \<and> cooldowns (setCooldown symbol s) symbol = Some (clock s (ticks s))
    \<and> (monotonic (clock s (Suc (ticks s))) - monotonic (clock s (ticks s)) = 0 \<longrightarrow>
         \<not> fst (checkCooldown cfg symbol (setCooldown symbol s)))
    \<and> (monotonic (clock s (Suc (ticks s))) - monotonic (clock s (ticks s))
           \<ge> CooldownMinutes cfg * Minute \<longrightarrow>
         fst (checkCooldown cfg symbol (setCooldown symbol s)))
    \<and> (\<forall>t0. cooldowns s symbol = Some t0 \<longrightarrow>
         (fst (checkCooldown cfg symbol s) \<longleftrightarrow>
            monotonic (clock s (ticks s)) - monotonic t0 \<ge> CooldownMinutes cfg * Minute))"
proof -
  have dur: "cooldownDuration cfg = CooldownMinutes cfg * Minute"
    using assms by (rule cooldownDuration_exact)
  have rng: "CooldownMinutes cfg * Minute \<le> maxDuration" "minDuration < CooldownMinutes cfg * Minute"
    using assms by (simp_all add: Minute_def maxDuration_def minDuration_def)
  have pos: "0 < CooldownMinutes cfg * Minute"
    using assms by (simp add: Minute_def)
  have a: "cooldowns s symbol = None \<longrightarrow> fst (checkCooldown cfg symbol s)"
    by (simp add: checkCooldown_def)
  have fresh: "fst (checkCooldown cfg symbol (NewAlertService clk tr rp))"
    by (simp add: checkCooldown_def NewAlertService_def)
  have d: "fst (checkCooldown cfg symbol s') \<longleftrightarrow>
             monotonic (clock s' (ticks s')) - monotonic t0 \<ge> CooldownMinutes cfg * Minute"
    if "cooldowns s' symbol = Some t0" for s' t0
    using that rng by (simp add: checkCooldown_Some dur time_Sub_ge)
  have b: "cooldowns (setCooldown symbol s) symbol = Some (clock s (ticks s))"
    by (simp add: setCooldown_records)
  have c: "fst (checkCooldown cfg symbol (setCooldown symbol s)) \<longleftrightarrow>
      monotonic (clock s (Suc (ticks s))) - monotonic (clock s (ticks s))
        \<ge> CooldownMinutes cfg * Minute"
    using d [OF b] by (simp add: setCooldown_records)
  show ?thesis using fresh a b c d pos by auto
qed

text \<open>
  The window at the default of 30 minutes: a fresh service allows the symbol; right after
  \<^verbatim>\<open>setCooldown\<close> on a clock that stands still it does not; after exactly 30 minutes it
  does again.
\<close>

theorem checkCooldown_window_witness:
  "fst (checkCooldown defaultConfig ''AAPL''
          (NewAlertService (stopped_clock 12) transport_up (pick_listed [])))
   \<and> \<not> fst (checkCooldown defaultConfig ''AAPL''
          (setCooldown ''AAPL'' (NewAlertService (stopped_clock 12) transport_up (pick_listed []))))
   \<and> fst (checkCooldown defaultConfig ''AAPL''
          (setCooldown ''AAPL''
             (NewAlertService (stepping_clock (30 * Minute) 12) transport_up (pick_listed []))))"
proof -
  have cm: "0 < CooldownMinutes defaultConfig" "CooldownMinutes defaultConfig \<le> 153722867"
    by (simp_all add: defaultConfig_def)
  note a = checkCooldown_window [OF cm,
      where s = "NewAlertService (stopped_clock 12) transport_up (pick_listed [])"
        and symbol = "''AAPL''"]
  note b = checkCooldown_window [OF cm,
      where s = "NewAlertService (stepping_clock (30 * Minute) 12) transport_up (pick_listed [])"
        and symbol = "''AAPL''"]
  have e1: "cooldowns (NewAlertService (stopped_clock 12) transport_up (pick_listed [])) ''AAPL'' = None"
    by (simp add: NewAlertService_def)
  have e2: "monotonic (clock (NewAlertService (stopped_clock 12) transport_up (pick_listed []))
               (Suc (ticks (NewAlertService (stopped_clock 12) transport_up (pick_listed [])))))
            - monotonic (clock (NewAlertService (stopped_clock 12) transport_up (pick_listed []))
               (ticks (NewAlertService (stopped_clock 12) transport_up (pick_listed [])))) = 0"
    by (simp add: NewAlertService_def stopped_clock_def)
  have e3: "monotonic (clock (NewAlertService (stepping_clock (30 * Minute) 12) transport_up (pick_listed []))
               (Suc (ticks (NewAlertService (stepping_clock (30 * Minute) 12) transport_up (pick_listed [])))))
            - monotonic (clock (NewAlertService (stepping_clock (30 * Minute) 12) transport_up (pick_listed []))
               (ticks (NewAlertService (stepping_clock (30 * Minute) 12) transport_up (pick_listed []))))
            \<ge> CooldownMinutes defaultConfig * Minute"
    by (simp add: NewAlertService_def stepping_clock_def defaultConfig_def)
  show ?thesis
    using a b e1 e2 e3 by blast
qed

text \<open>
  With \<^verbatim>\<open>CooldownMinutes\<close> = 153722868 the product with \<^verbatim>\<open>time.Minute\<close> exceeds the range
  of the 64-bit \<^verbatim>\<open>Duration\<close> and wraps to a negative number: right after \<^verbatim>\<open>setCooldown\<close>,
  with no time elapsed, \<^verbatim>\<open>checkCooldown\<close> returns true.
\<close>

theorem checkCooldown_overflow_counterexample:
  "0 < CooldownMinutes (defaultConfig\<lparr>CooldownMinutes := 153722868\<rparr>)
   \<and> cooldowns (setCooldown ''AAPL'' (NewAlertService (stopped_clock 12) transport_up (pick_listed [])))
        ''AAPL'' = Some (stopped_clock 12 0)
   \<and> clock (setCooldown ''AAPL'' (NewAlertService (stopped_clock 12) transport_up (pick_listed [])))
        (ticks (setCooldown ''AAPL'' (NewAlertService (stopped_clock 12) transport_up (pick_listed []))))
      = stopped_clock 12 0
   \<and> cooldownDuration (defaultConfig\<lparr>CooldownMinutes := 153722868\<rparr>) = - 9223371993709551616
   \<and> fst (checkCooldown (defaultConfig\<lparr>CooldownMinutes := 153722868\<rparr>) ''AAPL''
            (setCooldown ''AAPL'' (NewAlertService (stopped_clock 12) transport_up (pick_listed []))))"
  by (simp add: defaultConfig_def NewAlertService_def setCooldown_def time_Now_def checkCooldown_def
        time_Since_def time_Sub_def cooldownDuration_def wrap64_def Minute_def maxDuration_def
        minDuration_def stopped_clock_def)

section \<open>The decision handler, branch by branch\<close>

lemma HandleDecisionEvent_signal:
  assumes "\<not> shouldAlertForSignal cfg (Signal (Data d))"
  shows "HandleDecisionEvent f cfg (Decision d) s =
           (Success, log_Printf (SkipNotConfigured (Symbol (Data d)) (Signal (Data d))) s)"
  using assms by (simp add: HandleDecisionEvent_def Let_def)

lemma HandleDecisionEvent_confidence:
  assumes "shouldAlertForSignal cfg (Signal (Data d))" and "Confidence (Data d) < MinConfidence cfg"
  shows "HandleDecisionEvent f cfg (Decision d) s =
           (Success, log_Printf (SkipBelowThreshold (Symbol (Data d)) (Confidence (Data d))
                                   (MinConfidence cfg)) s)"
  using assms by (simp add: HandleDecisionEvent_def Let_def)

lemma HandleDecisionEvent_cooldown:
  assumes "shouldAlertForSignal cfg (Signal (Data d))" and "\<not> Confidence (Data d) < MinConfidence cfg"
    and "\<not> fst (checkCooldown cfg (Symbol (Data d)) s)"
  shows "HandleDecisionEvent f cfg (Decision d) s =
           (Success, log_Printf (SkipCooldown (Symbol (Data d)))
                       (snd (checkCooldown cfg (Symbol (Data d)) s)))"
  using assms by (simp add: HandleDecisionEvent_def Let_def split_beta)

lemma HandleDecisionEvent_quiet:
  assumes "shouldAlertForSignal cfg (Signal (Data d))" and "\<not> Confidence (Data d) < MinConfidence cfg"
    and "fst (checkCooldown cfg (Symbol (Data d)) s)"
    and "fst (isQuietHours cfg (snd (checkCooldown cfg (Symbol (Data d)) s)))"
  shows "HandleDecisionEvent f cfg (Decision d) s =
           (Success, log_Printf (SkipQuietHours (Symbol (Data d))) (after_gates cfg d s))"
  using assms by (simp add: HandleDecisionEvent_def Let_def after_gates_def split_beta)

lemma HandleDecisionEvent_pass:
  assumes "gates_pass cfg d s"
  shows "HandleDecisionEvent f cfg (Decision d) s =
     (case formatDecisionMessage f (range_pick s (IndicatorsSnapshot (Data d))) d of
        Inl p \<Rightarrow> (Panicked p, after_gates cfg d s)
      | Inr message \<Rightarrow>
          (case transport s (length (sent s)) message of
             Some e \<Rightarrow> (Failure (''failed to send telegram message: '' @ e),
                        (after_gates cfg d s)\<lparr>sent := sent s @ [message]\<rparr>)
           | None \<Rightarrow> (Success,
                      log_Printf (SentAlert (Symbol (Data d)) (Signal (Data d)) (Confidence (Data d)))
                        (setCooldown (Symbol (Data d))
                           ((after_gates cfg d s)\<lparr>sent := sent s @ [message]\<rparr>)))))"
  using assms
  by (simp add: HandleDecisionEvent_def gates_pass_def Let_def after_gates_def SendMessage_def
        isQuietHours_frame checkCooldown_frame split_beta
      split: sum.splits option.splits)

lemma HandleDecisionEvent_suppressed:
  assumes "\<not> gates_pass cfg d s"
  shows "fst (HandleDecisionEvent f cfg (Decision d) s) = Success
    \<and> sent (snd (HandleDecisionEvent f cfg (Decision d) s)) = sent s
    \<and> cooldowns (snd (HandleDecisionEvent f cfg (Decision d) s)) = cooldowns s"
proof -
  consider (a) "\<not> shouldAlertForSignal cfg (Signal (Data d))"
    | (b) "shouldAlertForSignal cfg (Signal (Data d))" "Confidence (Data d) < MinConfidence cfg"
    | (c) "shouldAlertForSignal cfg (Signal (Data d))" "\<not> Confidence (Data d) < MinConfidence cfg"
          "\<not> fst (checkCooldown cfg (Symbol (Data d)) s)"
    | (e) "shouldAlertForSignal cfg (Signal (Data d))" "\<not> Confidence (Data d) < MinConfidence cfg"
          "fst (checkCooldown cfg (Symbol (Data d)) s)"
          "fst (isQuietHours cfg (snd (checkCooldown cfg (Symbol (Data d)) s)))"
    using assms by (auto simp: gates_pass_def)
  then show ?thesis
  proof cases
    case a
    then show ?thesis by (simp add: HandleDecisionEvent_signal log_Printf_frame)
  next
    case b
    then show ?thesis by (simp add: HandleDecisionEvent_confidence log_Printf_frame)
  next
    case c
    then show ?thesis
      by (simp add: HandleDecisionEvent_cooldown log_Printf_frame checkCooldown_frame)
  next
    case e
    then show ?thesis
      by (simp add: HandleDecisionEvent_quiet log_Printf_frame after_gates_frame)
  qed
qed

section \<open>A failed send and the cooldown\<close>

text \<open>
  C1, as amended. For every decision event whose gates all pass and whose text is
  rendered, the text is handed to the Sink; when the send fails, the handler returns the
  wrapped error and the cooldown map is unchanged (a failed send does not use up the
  cooldown window); when the send succeeds, the handler returns success and the cooldown
  entry of the event's symbol is the reading of the clock taken after the send.
\<close>

theorem HandleDecisionEvent_send_outcome:
  assumes "gates_pass cfg d s"
    and "formatDecisionMessage f (range_pick s (IndicatorsSnapshot (Data d))) d = Inr message"
  shows "sent (snd (HandleDecisionEvent f cfg (Decision d) s)) = sent s @ [message]
    \<and> (\<forall>e. transport s (length (sent s)) message = Some e \<longrightarrow>
          fst (HandleDecisionEvent f cfg (Decision d) s)
            = Failure (''failed to send telegram message: '' @ e)
          \<and> cooldowns (snd (HandleDecisionEvent f cfg (Decision d) s)) = cooldowns s)
    \<and> (transport s (length (sent s)) message = None \<longrightarrow>
          fst (HandleDecisionEvent f cfg (Decision d) s) = Success
          \<and> cooldowns (snd (HandleDecisionEvent f cfg (Decision d) s))
              = (cooldowns s)(Symbol (Data d) \<mapsto> clock s (ticks (after_gates cfg d s))))"
proof (cases "transport s (length (sent s)) message")
  case None
  then show ?thesis
    using assms
    by (simp add: HandleDecisionEvent_pass log_Printf_frame setCooldown_records after_gates_frame)
next
  case (Some e)
  then show ?thesis
    using assms
    by (simp add: HandleDecisionEvent_pass after_gates_frame)
qed

text \<open>
  The default settings, a BUY decision of confidence 0.8 and a transport that is down: the
  send fails and no cooldown is recorded. With the transport up the cooldown is recorded.
\<close>

theorem HandleDecisionEvent_send_outcome_witness:
  "fst (HandleDecisionEvent std_fmt defaultConfig (Decision (sample_decision ''BUY'' (8 / 10)))
          (NewAlertService (stopped_clock 12) transport_down (pick_listed [])))
     = Failure ''failed to send telegram message: timeout''
   \<and> cooldowns (snd (HandleDecisionEvent std_fmt defaultConfig
          (Decision (sample_decision ''BUY'' (8 / 10)))
          (NewAlertService (stopped_clock 12) transport_down (pick_listed [])))) = Map.empty
   \<and> cooldowns (snd (HandleDecisionEvent std_fmt defaultConfig
          (Decision (sample_decision ''BUY'' (8 / 10)))
          (NewAlertService (stopped_clock 12) transport_up (pick_listed [])))) ''AAPL''
     = Some (stopped_clock 12 0)"
proof -
  let ?d = "sample_decision ''BUY'' (8 / 10)"
  let ?dn = "NewAlertService (stopped_clock 12) transport_down (pick_listed [])"
  let ?up = "NewAlertService (stopped_clock 12) transport_up (pick_listed [])"
  have g1: "gates_pass defaultConfig ?d ?dn" by code_simp
  have g2: "gates_pass defaultConfig ?d ?up" by code_simp
  obtain m where m: "formatDecisionMessage std_fmt [] ?d = Inr m"
    using sample_decision_renders by blast
  have m1: "formatDecisionMessage std_fmt (range_pick ?dn (IndicatorsSnapshot (Data ?d))) ?d = Inr m"
    using m by (simp add: NewAlertService_def pick_listed_def)
  have m2: "formatDecisionMessage std_fmt (range_pick ?up (IndicatorsSnapshot (Data ?d))) ?d = Inr m"
    using m by (simp add: NewAlertService_def pick_listed_def)
  note a = HandleDecisionEvent_send_outcome [OF g1 m1]
  note b = HandleDecisionEvent_send_outcome [OF g2 m2]
  have t1: "transport ?dn (length (sent ?dn)) m = Some ''timeout''"
    by (simp add: NewAlertService_def transport_down_def)
  have t2: "transport ?up (length (sent ?up)) m = None"
    by (simp add: NewAlertService_def transport_up_def)
  have c0: "cooldowns ?dn = Map.empty" "cooldowns ?up = Map.empty"
    by (simp_all add: NewAlertService_def)
  have k: "clock ?up (ticks (after_gates defaultConfig ?d ?up)) = stopped_clock 12 0"
    by (simp add: NewAlertService_def stopped_clock_def)
  show ?thesis
    using a b t1 t2 c0 k by (simp add: sample_decision_def)
qed

text \<open>
  The claim as stated fails: with all gates passed and the text handed to a Sink whose send
  fails, no cooldown entry is recorded for the symbol.
\<close>

theorem HandleDecisionEvent_failed_send_counterexample:
  "gates_pass defaultConfig (sample_decision ''BUY'' (8 / 10))
     (NewAlertService (stopped_clock 12) transport_down (pick_listed []))
   \<and> length (sent (snd (HandleDecisionEvent std_fmt defaultConfig
        (Decision (sample_decision ''BUY'' (8 / 10)))
        (NewAlertService (stopped_clock 12) transport_down (pick_listed []))))) = 1
   \<and> fst (HandleDecisionEvent std_fmt defaultConfig (Decision (sample_decision ''BUY'' (8 / 10)))
        (NewAlertService (stopped_clock 12) transport_down (pick_listed [])))
       = Failure ''failed to send telegram message: timeout''
   \<and> cooldowns (snd (HandleDecisionEvent std_fmt defaultConfig
        (Decision (sample_decision ''BUY'' (8 / 10)))
        (NewAlertService (stopped_clock 12) transport_down (pick_listed [])))) ''AAPL'' = None"
  by code_simp

section \<open>The order of the gates\<close>



section \<open>The confidence bar\<close>



lemma HandleDecisionEvent_panics:
  assumes "gates_pass cfg d s"
    and "int_of_float64 (float64_mul (Confidence (Data d)) 10) < 0
         \<or> int_of_float64 (float64_mul (Confidence (Data d)) 10) > 10"
  shows "HandleDecisionEvent f cfg (Decision d) s
           = (Panicked ''strings: negative Repeat count'', after_gates cfg d s)"
  using assms(1) formatConfidenceBar_out_of_range [OF assms(2)]
  by (simp add: HandleDecisionEvent_pass formatDecisionMessage_def Let_def)

text \<open>
  C10, as amended. \<^verbatim>\<open>formatConfidenceBar\<close> returns a text exactly when
  \<open>0 \<le> int(confidence * 10) \<le> 10\<close>, and panics on a negative repeat count otherwise. The
  conversion truncates towards zero, so for a \<^verbatim>\<open>float64\<close> confidence
  \<open>int(confidence * 10) < 0\<close> holds exactly for \<open>confidence \<le> -0.1\<close> and
  \<open>int(confidence * 10) > 10\<close> exactly for \<open>confidence \<ge> 1.1\<close>. The gates bound the confidence
  only from below, so a decision event with such a confidence that passes all gates makes
  \<^verbatim>\<open>HandleDecisionEvent\<close> panic, with nothing sent and no cooldown recorded.
\<close>

theorem formatConfidenceBar_panic_range:
  "(formatConfidenceBar c = Inl ''strings: negative Repeat count''
      \<longleftrightarrow> int_of_float64 (float64_mul c 10) < 0 \<or> int_of_float64 (float64_mul c 10) > 10)
   \<and> ((\<exists>bar. formatConfidenceBar c = Inr bar)
      \<longleftrightarrow> 0 \<le> int_of_float64 (float64_mul c 10) \<and> int_of_float64 (float64_mul c 10) \<le> 10)
   \<and> (is_float64 c \<longrightarrow> (int_of_float64 (float64_mul c 10) < 0 \<longleftrightarrow> c \<le> - 1 / 10))
   \<and> (is_float64 c \<longrightarrow> (int_of_float64 (float64_mul c 10) > 10 \<longleftrightarrow> c \<ge> 11 / 10))
   \<and> (gates_pass cfg d s \<and> Confidence (Data d) = c
        \<and> (int_of_float64 (float64_mul c 10) < 0 \<or> int_of_float64 (float64_mul c 10) > 10) \<longrightarrow>
       HandleDecisionEvent f cfg (Decision d) s
         = (Panicked ''strings: negative Repeat count'', after_gates cfg d s)
       \<and> sent (after_gates cfg d s) = sent s
       \<and> cooldowns (after_gates cfg d s) = cooldowns s)"
proof -
  have out: "int_of_float64 (float64_mul c 10) < 0 \<or> int_of_float64 (float64_mul c 10) > 10 \<Longrightarrow>
      formatConfidenceBar c = Inl ''strings: negative Repeat count''"
    by (rule formatConfidenceBar_out_of_range)
  have inr: "0 \<le> int_of_float64 (float64_mul c 10) \<and> int_of_float64 (float64_mul c 10) \<le> 10 \<Longrightarrow>
      \<exists>bar. formatConfidenceBar c = Inr bar"
    using formatConfidenceBar_in_range [of c] by blast
  have a: "formatConfidenceBar c = Inl ''strings: negative Repeat count''
      \<longleftrightarrow> int_of_float64 (float64_mul c 10) < 0 \<or> int_of_float64 (float64_mul c 10) > 10"
    using out inr by fastforce
  have b: "(\<exists>bar. formatConfidenceBar c = Inr bar)
      \<longleftrightarrow> 0 \<le> int_of_float64 (float64_mul c 10) \<and> int_of_float64 (float64_mul c 10) \<le> 10"
    using out inr by fastforce
  have h: "HandleDecisionEvent f cfg (Decision d) s
         = (Panicked ''strings: negative Repeat count'', after_gates cfg d s)"
    if "gates_pass cfg d s" and "Confidence (Data d) = c"
      and "int_of_float64 (float64_mul c 10) < 0 \<or> int_of_float64 (float64_mul c 10) > 10"
    using that by (simp add: HandleDecisionEvent_panics)
  show ?thesis
    using a b h filled_negative [of c] filled_above [of c]
    by (simp add: after_gates_frame)
qed

text \<open>
  A BUY decision of confidence 1.2 passes the default gates and panics; so does one of
  confidence -0.5 once the threshold is configured below it. The \<^verbatim>\<open>float64\<close> values -0.5
  and 1.25 lie beyond the two bounds.
\<close>

theorem formatConfidenceBar_panic_range_witness:
  "fst (HandleDecisionEvent std_fmt defaultConfig (Decision (sample_decision ''BUY'' (12 / 10)))
          (NewAlertService (stopped_clock 12) transport_up (pick_listed [])))
     = Panicked ''strings: negative Repeat count''
   \<and> fst (HandleDecisionEvent std_fmt (defaultConfig\<lparr>MinConfidence := - 1\<rparr>)
          (Decision (sample_decision ''BUY'' (- 5 / 10)))
          (NewAlertService (stopped_clock 12) transport_up (pick_listed [])))
     = Panicked ''strings: negative Repeat count''
   \<and> formatConfidenceBar (12 / 10) = Inl ''strings: negative Repeat count''
   \<and> is_float64 (- 1 / 2) \<and> int_of_float64 (float64_mul (- 1 / 2) 10) < 0
   \<and> is_float64 (5 / 4) \<and> int_of_float64 (float64_mul (5 / 4) 10) > 10"
proof -
  let ?s = "NewAlertService (stopped_clock 12) transport_up (pick_listed [])"
  let ?hi = "sample_decision ''BUY'' (12 / 10)"
  let ?lo = "sample_decision ''BUY'' (- 5 / 10)"
  let ?cn = "defaultConfig\<lparr>MinConfidence := - 1\<rparr>"
  note a = formatConfidenceBar_panic_range [of "12 / 10" defaultConfig ?hi ?s std_fmt]
  note b = formatConfidenceBar_panic_range [of "- 5 / 10" ?cn ?lo ?s std_fmt]
  note c = formatConfidenceBar_panic_range [of "- 1 / 2"]
  note d = formatConfidenceBar_panic_range [of "5 / 4"]
  have g1: "gates_pass defaultConfig ?hi ?s" by code_simp
  have g2: "gates_pass ?cn ?lo ?s" by code_simp
  have c1: "Confidence (Data ?hi) = 12 / 10" "Confidence (Data ?lo) = - 5 / 10"
    by (simp_all add: sample_decision_def)
  have k1: "int_of_float64 (float64_mul (12 / 10) 10) = 12"
    using filled_whole [of "12 / 10" 12] by simp
  have k2: "int_of_float64 (float64_mul (- 5 / 10) 10) = - 5"
    using filled_whole [of "- 5 / 10" "- 5"] by simp
  have "round_float64 (- 1 / 2) = of_int (- 4503599627370496) * (1 / 2 ^ (52 + 1))"
    by (rule round_float64_down_eq) simp_all
  then have f1: "is_float64 (- 1 / 2)"
    by (simp add: is_float64_def)
  have "round_float64 (5 / 4) = of_int 5629499534213120 * (2 ^ 0 / 2 ^ 52)"
    by (rule round_float64_up_eq) simp_all
  then have f2: "is_float64 (5 / 4)"
    by (simp add: is_float64_def)
  have A: "fst (HandleDecisionEvent std_fmt defaultConfig (Decision ?hi) ?s)
     = Panicked ''strings: negative Repeat count''"
    using a g1 c1(1) k1 by simp
  have B: "fst (HandleDecisionEvent std_fmt ?cn (Decision ?lo) ?s)
     = Panicked ''strings: negative Repeat count''"
    using b g2 c1(2) k2 by simp
  have C: "formatConfidenceBar (12 / 10) = Inl ''strings: negative Repeat count''"
    using a k1 by simp
  have D: "int_of_float64 (float64_mul (- 1 / 2) 10) < 0"
    using c f1 by simp
  have E: "int_of_float64 (float64_mul (5 / 4) 10) > 10"
    using d f2 by simp
  show ?thesis
    using A B C D E f1 f2 by blast
qed

text \<open>
  Not every negative confidence panics: for -0.05 the product -0.5 converts to 0, and the
  bar is ten empty segments. The same holds at the \<^verbatim>\<open>float64\<close> nearest to -0.05, whose
  \<^verbatim>\<open>float64\<close> product with 10 is -0.5.
\<close>

theorem formatConfidenceBar_negative_counterexample:
  "(- 1 / 20 :: rat) < 0
   \<and> int_of_float64 (float64_mul (- 1 / 20) 10) = 0
   \<and> formatConfidenceBar (- 1 / 20) = Inr (concat (replicate 10 light_shade))
   \<and> is_float64 (- 3602879701896397 / 72057594037927936)
   \<and> (- 3602879701896397 / 72057594037927936 :: rat) < 0
   \<and> formatConfidenceBar (- 3602879701896397 / 72057594037927936)
       = Inr (concat (replicate 10 light_shade))"
proof -
  have "round_float64 (- 1 / 20 * 10) = of_int (- 4503599627370496) * (1 / 2 ^ (52 + 1))"
    by (rule round_float64_down_eq) simp_all
  then have k: "int_of_float64 (float64_mul (- 1 / 20) 10) = 0"
    by (simp add: float64_mul_def int_of_float64_def ceiling_eq_iff)
  have bar: "formatConfidenceBar (- 1 / 20) = Inr (concat (replicate 10 light_shade))"
    using formatConfidenceBar_in_range [of "- 1 / 20"] k by simp
  have "round_float64 (- 3602879701896397 / 72057594037927936)
      = of_int (- 7205759403792794) * (1 / 2 ^ (52 + 5))"
    by (rule round_float64_down_eq) simp_all
  then have f: "is_float64 (- 3602879701896397 / 72057594037927936)"
    by (simp add: is_float64_def)
  have "round_float64 (- 3602879701896397 / 72057594037927936 * 10)
      = of_int (- 4503599627370496) * (1 / 2 ^ (52 + 1))"
    by (rule round_float64_down_eq) simp_all
  then have k': "int_of_float64 (float64_mul (- 3602879701896397 / 72057594037927936) 10) = 0"
    by (simp add: float64_mul_def int_of_float64_def ceiling_eq_iff)
  have bar': "formatConfidenceBar (- 3602879701896397 / 72057594037927936)
       = Inr (concat (replicate 10 light_shade))"
    using formatConfidenceBar_in_range [of "- 3602879701896397 / 72057594037927936"] k'
    by simp
  show ?thesis
    using k bar f bar' by simp
qed

section \<open>The ranking message\<close>

lemma ranking_loop_prefix:
  assumes "0 \<le> i" and "count \<le> int (length rankings)"
  shows "ranking_loop f rankings count i sb =
           Inr (sb @ concat (map (\<lambda>j. ranking_entry f (int j) (rankings ! j))
                               [nat i ..< nat count]))"
  using assms
proof (induction f rankings count i sb rule: ranking_loop.induct)
  case (1 f rankings count i sb)
  show ?case
  proof (cases "i < count")
    case True
    then have ix: "index_at rankings i = Inr (rankings ! nat i)"
      using "1.prems" by (simp add: index_at_def)
    have up: "[nat i ..< nat count] = nat i # [nat (i + 1) ..< nat count]"
      using True "1.prems" by (simp add: upt_conv_Cons nat_add_distrib)
    have "ranking_loop f rankings count i sb =
            ranking_loop f rankings count (i + 1) (sb @ ranking_entry f i (rankings ! nat i))"
      using True ix by simp
    also have "\<dots> = Inr ((sb @ ranking_entry f i (rankings ! nat i))
                    @ concat (map (\<lambda>j. ranking_entry f (int j) (rankings ! j))
                               [nat (i + 1) ..< nat count]))"
      using "1.IH" [OF True ix] "1.prems" by simp
    finally show ?thesis
      using up "1.prems" by simp
  next
    case False
    then show ?thesis by simp
  qed
qed

lemma ranking_entry_spec: "ranking_entry f (int j) r = spec_ranking_entry f (Suc j) r"
proof -
  have m: "(if int j = 0 then medal_gold
            else if int j = 1 then medal_silver
            else if int j = 2 then medal_bronze
            else fmt_d (int j + 1) @ ''.'') = spec_marker (Suc j)"
    by (simp add: spec_marker_def add.commute)
  have r: "(if length (Reasoning r) > 100 then take 97 (Reasoning r) @ ''...'' else Reasoning r)
           = spec_reasoning (Reasoning r)"
    by (simp add: spec_reasoning_def)
  show ?thesis
    unfolding ranking_entry_def spec_ranking_entry_def Let_def m r by simp
qed

lemma prefix_by_index:
  assumes "k \<le> length rs"
  shows "map (\<lambda>j. g j (rs ! j)) [0 ..< k] = map (\<lambda>(j, r). g j r) (enumerate 0 (take k rs))"
  using assms by (intro nth_equalityI) (simp_all add: nth_enumerate_eq)

lemma formatRankingMessage_total:
  "formatRankingMessage f cfg event =
     Inr ((if SignalType (RData event) = SignalBuy then green_circle
           else if SignalType (RData event) = SignalSell then red_circle else [])
          @ '' <b>'' @ SignalType (RData event) @ '' Rankings Update</b>'' @ nl
          @ calendar @ '' '' @ fmt_time f ''2006-01-02 15:04'' (DTimestamp (RData event)) @ nl @ nl
          @ ''<b>Top '' @ fmt_d (min (RankingsTopN cfg) (int (length (Rankings (RData event)))))
          @ '' '' @ SignalType (RData event) @ '' Candidates:</b>'' @ nl @ nl
          @ concat (spec_ranking_entries f
                      (nat (min (RankingsTopN cfg) (int (length (Rankings (RData event))))))
                      (Rankings (RData event)))
          @ bar_chart @ '' Total symbols analyzed: '' @ fmt_d (TotalSymbols (RData event)))"
proof -
  let ?rs = "Rankings (RData event)"
  let ?count = "min (RankingsTopN cfg) (int (length ?rs))"
  have cnt: "(if RankingsTopN cfg > int (length ?rs) then int (length ?rs) else RankingsTopN cfg)
             = ?count"
    by (simp add: min_def)
  have le: "?count \<le> int (length ?rs)" and k: "nat ?count \<le> length ?rs"
    by simp_all
  have loop: "ranking_loop f ?rs ?count 0 sb =
      Inr (sb @ concat (spec_ranking_entries f (nat ?count) ?rs))" for sb
    using ranking_loop_prefix [of 0 ?count ?rs f sb] le
      prefix_by_index [OF k, of "\<lambda>j r. ranking_entry f (int j) r"]
    by (simp add: spec_ranking_entries_def ranking_entry_spec)
  show ?thesis
    unfolding formatRankingMessage_def Let_def cnt loop by simp
qed

text \<open>
  C8. For every ranking event, \<^verbatim>\<open>formatRankingMessage\<close> returns a text (it does not panic)
  made of the header, then the entries of the first \<open>min(RankingsTopN, number of rankings)\<close>
  rankings (none when that is negative) in their given order, then the count of symbols
  analysed. The entry at the 1-based position \<open>j + 1\<close> renders the \<open>j\<close>-th ranking of the
  list with the marker of that position: the three fixed markers for the positions 1 to 3
  and the number with a dot after them. Its reasoning is rendered unchanged when it has at
  most 100 bytes and cut to its first 97 bytes plus the truncation marker when it is longer
  (an entry with an empty reasoning has no reasoning line).
\<close>

theorem formatRankingMessage_entries:
  "formatRankingMessage f cfg event =
     Inr ((if SignalType (RData event) = SignalBuy then green_circle
           else if SignalType (RData event) = SignalSell then red_circle else [])
          @ '' <b>'' @ SignalType (RData event) @ '' Rankings Update</b>'' @ nl
          @ calendar @ '' '' @ fmt_time f ''2006-01-02 15:04'' (DTimestamp (RData event)) @ nl @ nl
          @ ''<b>Top '' @ fmt_d (min (RankingsTopN cfg) (int (length (Rankings (RData event)))))
          @ '' '' @ SignalType (RData event) @ '' Candidates:</b>'' @ nl @ nl
          @ concat (spec_ranking_entries f
                      (nat (min (RankingsTopN cfg) (int (length (Rankings (RData event))))))
                      (Rankings (RData event)))
          @ bar_chart @ '' Total symbols analyzed: '' @ fmt_d (TotalSymbols (RData event)))
   \<and> length (spec_ranking_entries f
                (nat (min (RankingsTopN cfg) (int (length (Rankings (RData event))))))
                (Rankings (RData event)))
       = nat (min (RankingsTopN cfg) (int (length (Rankings (RData event)))))
   \<and> (0 \<le> RankingsTopN cfg \<longrightarrow>
        int (length (spec_ranking_entries f
                (nat (min (RankingsTopN cfg) (int (length (Rankings (RData event))))))
                (Rankings (RData event))))
        = min (RankingsTopN cfg) (int (length (Rankings (RData event)))))
   \<and> (\<forall>j < nat (min (RankingsTopN cfg) (int (length (Rankings (RData event))))).
        spec_ranking_entries f
          (nat (min (RankingsTopN cfg) (int (length (Rankings (RData event))))))
          (Rankings (RData event)) ! j
        = spec_ranking_entry f (Suc j) (Rankings (RData event) ! j))"
proof -
  let ?rs = "Rankings (RData event)"
  let ?k = "nat (min (RankingsTopN cfg) (int (length ?rs)))"
  have k: "?k \<le> length ?rs"
    by simp
  have len: "length (spec_ranking_entries f ?k ?rs) = ?k"
    using k by (simp add: spec_ranking_entries_def)
  have nth: "spec_ranking_entries f ?k ?rs ! j = spec_ranking_entry f (Suc j) (?rs ! j)"
    if "j < ?k" for j
    using that k by (simp add: spec_ranking_entries_def nth_enumerate_eq)
  have nonneg: "0 \<le> RankingsTopN cfg \<Longrightarrow> int ?k = min (RankingsTopN cfg) (int (length ?rs))"
    by simp
  show ?thesis
    using formatRankingMessage_total [of f cfg event] len nth nonneg
    by (simp only: simp_thms) blast
qed

text \<open>
  Ten rankings under the default \<^verbatim>\<open>RankingsTopN\<close> of 5: five entries, with the markers of the
  positions 1 to 5; the reasoning of 150 bytes is cut to 97 bytes and the marker.
\<close>

theorem formatRankingMessage_entries_witness:
  "length (spec_ranking_entries std_fmt 5 (map sample_ranking [0 ..< 10])) = 5
   \<and> formatRankingMessage std_fmt defaultConfig sample_ranking_event =
       Inr (green_circle @ '' <b>BUY Rankings Update</b>'' @ nl @ calendar @ '' 0'' @ nl @ nl
            @ ''<b>Top 5 BUY Candidates:</b>'' @ nl @ nl
            @ concat (spec_ranking_entries std_fmt 5 (map sample_ranking [0 ..< 10]))
            @ bar_chart @ '' Total symbols analyzed: 42'')
   \<and> spec_ranking_entries std_fmt 5 (map sample_ranking [0 ..< 10]) ! 3
       = ''4. <b>S3</b> - Score: 7.50 (90% confidence)'' @ nl
         @ ''    '' @ corner @ '' momentum'' @ nl @ nl
   \<and> map spec_marker [1, 2, 3, 4, 5] = [medal_gold, medal_silver, medal_bronze, ''4.'', ''5.'']
   \<and> spec_reasoning (replicate 150 CHR ''x'') = replicate 97 CHR ''x'' @ ''...''"
proof -
  note t = formatRankingMessage_entries [of std_fmt defaultConfig sample_ranking_event]
  have k: "nat (min (RankingsTopN defaultConfig)
                 (int (length (Rankings (RData sample_ranking_event))))) = 5"
    by (simp add: defaultConfig_def sample_ranking_event_def)
  have rs: "Rankings (RData sample_ranking_event) = map sample_ranking [0 ..< 10]"
    by (simp add: sample_ranking_event_def)
  have k': "nat (min (RankingsTopN defaultConfig)
                 (int (length (map sample_ranking [0 ..< 10])))) = 5"
    by (simp add: defaultConfig_def)
  have e3: "spec_ranking_entry std_fmt (Suc 3) (map sample_ranking [0 ..< 10] ! 3)
       = ''4. <b>S3</b> - Score: 7.50 (90% confidence)'' @ nl
         @ ''    '' @ corner @ '' momentum'' @ nl @ nl"
    by code_simp
  have A: "length (spec_ranking_entries std_fmt 5 (map sample_ranking [0 ..< 10])) = 5"
    using t [THEN conjunct2, THEN conjunct1] unfolding rs k' .
  have B: "formatRankingMessage std_fmt defaultConfig sample_ranking_event =
       Inr (green_circle @ '' <b>BUY Rankings Update</b>'' @ nl @ calendar @ '' 0'' @ nl @ nl
            @ ''<b>Top 5 BUY Candidates:</b>'' @ nl @ nl
            @ concat (spec_ranking_entries std_fmt 5 (map sample_ranking [0 ..< 10]))
            @ bar_chart @ '' Total symbols analyzed: 42'')"
    by (rule trans [OF t [THEN conjunct1]]) code_simp
  have "(3::nat) < nat (min (RankingsTopN defaultConfig)
                 (int (length (Rankings (RData sample_ranking_event)))))"
    using k by simp
  then have "spec_ranking_entries std_fmt
          (nat (min (RankingsTopN defaultConfig)
                 (int (length (Rankings (RData sample_ranking_event))))))
          (Rankings (RData sample_ranking_event)) ! 3
        = spec_ranking_entry std_fmt (Suc 3) (Rankings (RData sample_ranking_event) ! 3)"
    using t by blast
  then have C: "spec_ranking_entries std_fmt 5 (map sample_ranking [0 ..< 10]) ! 3
       = ''4. <b>S3</b> - Score: 7.50 (90% confidence)'' @ nl
         @ ''    '' @ corner @ '' momentum'' @ nl @ nl"
    unfolding rs k' e3 .
  have D: "map spec_marker [1, 2, 3, 4, 5] = [medal_gold, medal_silver, medal_bronze, ''4.'', ''5.'']"
    by code_simp
  have E: "spec_reasoning (replicate 150 CHR ''x'') = replicate 97 CHR ''x'' @ ''...''"
    by code_simp
  show ?thesis
    using A B C D E by blast
qed

section \<open>The ranking handler and the cooldown map\<close>

lemma HandleRankingEvent_eq:
  "HandleRankingEvent f cfg (Ranking r) s =
     (if \<not> AlertOnRankings cfg then (Success, s)
      else if fst (isQuietHours cfg s)
      then (Success, log_Printf SkipRankingQuietHours (snd (isQuietHours cfg s)))
      else (case formatRankingMessage f cfg r of
              Inl p \<Rightarrow> (Panicked p, snd (isQuietHours cfg s))
            | Inr message \<Rightarrow>
                (case transport s (length (sent s)) message of
                   Some e \<Rightarrow> (Failure (''failed to send telegram ranking message: '' @ e),
                              (snd (isQuietHours cfg s))\<lparr>sent := sent s @ [message]\<rparr>)
                 | None \<Rightarrow> (Success,
                            log_Printf (SentRanking (SignalType (RData r)) (length (Rankings (RData r))))
                              ((snd (isQuietHours cfg s))\<lparr>sent := sent s @ [message]\<rparr>)))))"
  by (simp add: HandleRankingEvent_def Let_def split_beta SendMessage_def isQuietHours_frame
      split: sum.splits option.splits)

lemma isQuietHours_cooldowns_update:
  "isQuietHours cfg (s\<lparr>cooldowns := c\<rparr>)
     = (fst (isQuietHours cfg s), (snd (isQuietHours cfg s))\<lparr>cooldowns := c\<rparr>)"
  by (simp add: isQuietHours_def time_Now_def)

lemma isQuietHours_settings:
  "isQuietHours (cfg\<lparr>MinConfidence := m, CooldownMinutes := k\<rparr>) s = isQuietHours cfg s"
  by (simp add: isQuietHours_def quietAt_def)

lemma formatRankingMessage_settings:
  "formatRankingMessage f (cfg\<lparr>MinConfidence := m, CooldownMinutes := k\<rparr>) r
     = formatRankingMessage f cfg r"
  by (simp add: formatRankingMessage_total)

text \<open>
  C9. For every ranking event, \<^verbatim>\<open>HandleRankingEvent\<close> hands a text to the Sink exactly
  when ranking alerts are enabled and it is not quiet hours. Its outcome and its effects do
  not depend on the confidence threshold or on the cooldown duration, nor on the contents
  of the cooldown map (it does not read the map), and it leaves the cooldown map as it was
  (it does not write the map), whether the event is suppressed, sent, or the send fails.
\<close>

theorem HandleRankingEvent_cooldown_free:
  "cooldowns (snd (HandleRankingEvent f cfg (Ranking r) s)) = cooldowns s
   \<and> HandleRankingEvent f cfg (Ranking r) (s\<lparr>cooldowns := c\<rparr>)
       = (fst (HandleRankingEvent f cfg (Ranking r) s),
          (snd (HandleRankingEvent f cfg (Ranking r) s))\<lparr>cooldowns := c\<rparr>)
   \<and> HandleRankingEvent f (cfg\<lparr>MinConfidence := m, CooldownMinutes := k\<rparr>) (Ranking r) s
       = HandleRankingEvent f cfg (Ranking r) s
   \<and> (sent (snd (HandleRankingEvent f cfg (Ranking r) s)) \<noteq> sent s
        \<longleftrightarrow> AlertOnRankings cfg \<and> \<not> fst (isQuietHours cfg s))
   \<and> (\<forall>p. fst (HandleRankingEvent f cfg (Ranking r) s) \<noteq> Panicked p)"
proof -
  obtain message where msg: "formatRankingMessage f cfg r = Inr message"
    using formatRankingMessage_total [of f cfg r] by blast
  have a: "cooldowns (snd (HandleRankingEvent f cfg (Ranking r) s)) = cooldowns s"
    by (simp add: HandleRankingEvent_eq msg isQuietHours_frame log_Printf_frame
        split: option.splits)
  have b: "HandleRankingEvent f cfg (Ranking r) (s\<lparr>cooldowns := c\<rparr>)
       = (fst (HandleRankingEvent f cfg (Ranking r) s),
          (snd (HandleRankingEvent f cfg (Ranking r) s))\<lparr>cooldowns := c\<rparr>)"
    by (simp add: HandleRankingEvent_eq msg isQuietHours_cooldowns_update log_Printf_def
        split: option.splits)
  have c: "HandleRankingEvent f (cfg\<lparr>MinConfidence := m, CooldownMinutes := k\<rparr>) (Ranking r) s
       = HandleRankingEvent f cfg (Ranking r) s"
    by (simp add: HandleRankingEvent_eq isQuietHours_settings formatRankingMessage_settings msg
        split: option.splits)
  have d: "sent (snd (HandleRankingEvent f cfg (Ranking r) s)) \<noteq> sent s
        \<longleftrightarrow> AlertOnRankings cfg \<and> \<not> fst (isQuietHours cfg s)"
    by (simp add: HandleRankingEvent_eq msg isQuietHours_frame log_Printf_frame
        split: option.splits)
  have e: "fst (HandleRankingEvent f cfg (Ranking r) s) \<noteq> Panicked p" for p
    by (simp add: HandleRankingEvent_eq msg split: option.splits)
  show ?thesis
    using a b c d e by blast
qed

text \<open>
  The ten sample rankings under the default settings, on a service whose cooldown map holds
  an entry for AAPL: a text is handed to the Sink with the transport up and with the
  transport down, none in quiet hours; the entry stays in each case.
\<close>

theorem HandleRankingEvent_cooldown_free_witness:
  "cooldowns (snd (HandleRankingEvent std_fmt defaultConfig (Ranking sample_ranking_event)
      (setCooldown ''AAPL'' (NewAlertService (stopped_clock 12) transport_up (pick_listed [])))))
     = [''AAPL'' \<mapsto> stopped_clock 12 0]
   \<and> sent (snd (HandleRankingEvent std_fmt defaultConfig (Ranking sample_ranking_event)
      (setCooldown ''AAPL'' (NewAlertService (stopped_clock 12) transport_up (pick_listed [])))))
     \<noteq> []
   \<and> cooldowns (snd (HandleRankingEvent std_fmt defaultConfig (Ranking sample_ranking_event)
      (setCooldown ''AAPL'' (NewAlertService (stopped_clock 12) transport_down (pick_listed [])))))
     = [''AAPL'' \<mapsto> stopped_clock 12 0]
   \<and> sent (snd (HandleRankingEvent std_fmt defaultConfig (Ranking sample_ranking_event)
      (setCooldown ''AAPL'' (NewAlertService (stopped_clock 12) transport_down (pick_listed [])))))
     \<noteq> []
   \<and> cooldowns (snd (HandleRankingEvent std_fmt (defaultConfig\<lparr>EnableQuietHours := True\<rparr>)
      (Ranking sample_ranking_event)
      (setCooldown ''AAPL'' (NewAlertService (stopped_clock 23) transport_up (pick_listed [])))))
     = [''AAPL'' \<mapsto> stopped_clock 23 0]
   \<and> sent (snd (HandleRankingEvent std_fmt (defaultConfig\<lparr>EnableQuietHours := True\<rparr>)
      (Ranking sample_ranking_event)
      (setCooldown ''AAPL'' (NewAlertService (stopped_clock 23) transport_up (pick_listed [])))))
     = []"
proof -
  let ?up = "setCooldown ''AAPL'' (NewAlertService (stopped_clock 12) transport_up (pick_listed []))"
  let ?dn = "setCooldown ''AAPL'' (NewAlertService (stopped_clock 12) transport_down (pick_listed []))"
  let ?qt = "setCooldown ''AAPL'' (NewAlertService (stopped_clock 23) transport_up (pick_listed []))"
  let ?cq = "defaultConfig\<lparr>EnableQuietHours := True\<rparr>"
  have cd: "cooldowns ?up = [''AAPL'' \<mapsto> stopped_clock 12 0]"
    "cooldowns ?dn = [''AAPL'' \<mapsto> stopped_clock 12 0]"
    "cooldowns ?qt = [''AAPL'' \<mapsto> stopped_clock 23 0]"
    by (simp_all add: setCooldown_records NewAlertService_def)
  have st: "sent ?up = []" "sent ?dn = []" "sent ?qt = []"
    by (simp_all add: setCooldown_records NewAlertService_def)
  have gate: "AlertOnRankings defaultConfig \<and> \<not> fst (isQuietHours defaultConfig ?up)"
    "AlertOnRankings defaultConfig \<and> \<not> fst (isQuietHours defaultConfig ?dn)"
    "fst (isQuietHours ?cq ?qt)"
    by code_simp+
  note a = HandleRankingEvent_cooldown_free [of std_fmt defaultConfig sample_ranking_event ?up]
  note b = HandleRankingEvent_cooldown_free [of std_fmt defaultConfig sample_ranking_event ?dn]
  note c = HandleRankingEvent_cooldown_free [of std_fmt ?cq sample_ranking_event ?qt]
  have A: "cooldowns (snd (HandleRankingEvent std_fmt defaultConfig (Ranking sample_ranking_event) ?up))
      = [''AAPL'' \<mapsto> stopped_clock 12 0]
    \<and> sent (snd (HandleRankingEvent std_fmt defaultConfig (Ranking sample_ranking_event) ?up)) \<noteq> []"
    using a cd(1) st(1) gate(1) by simp
  have B: "cooldowns (snd (HandleRankingEvent std_fmt defaultConfig (Ranking sample_ranking_event) ?dn))
      = [''AAPL'' \<mapsto> stopped_clock 12 0]
    \<and> sent (snd (HandleRankingEvent std_fmt defaultConfig (Ranking sample_ranking_event) ?dn)) \<noteq> []"
    using b cd(2) st(2) gate(2) by simp
  have C: "cooldowns (snd (HandleRankingEvent std_fmt ?cq (Ranking sample_ranking_event) ?qt))
      = [''AAPL'' \<mapsto> stopped_clock 23 0]
    \<and> sent (snd (HandleRankingEvent std_fmt ?cq (Ranking sample_ranking_event) ?qt)) = []"
    using c cd(3) st(3) gate(3) by simp
  show ?thesis
    using A B C by blast
qed

section \<open>The decision message and the order of the indicators\<close>

text \<open>
  C6. The text of a decision event depends on the order in which the \<^verbatim>\<open>range\<close> over
  \<^verbatim>\<open>IndicatorsSnapshot\<close> yields the entries. For the event with the indicators RSI and
  MACD both orders are possible, and \<^verbatim>\<open>formatDecisionMessage\<close> produces two different
  texts for the same event, whatever the formatting of the numbers; so do two runs of \<^verbatim>\<open>HandleDecisionEvent\<close> that differ only in
  that order.
\<close>

theorem formatDecisionMessage_order_dependent:
  "range_order (IndicatorsSnapshot (Data two_indicators)) [(''RSI'', 30), (''MACD'', 1)]
   \<and> range_order (IndicatorsSnapshot (Data two_indicators)) [(''MACD'', 1), (''RSI'', 30)]
   \<and> formatDecisionMessage f [(''RSI'', 30), (''MACD'', 1)] two_indicators
       \<noteq> formatDecisionMessage f [(''MACD'', 1), (''RSI'', 30)] two_indicators
   \<and> sent (snd (HandleDecisionEvent f defaultConfig (Decision two_indicators)
        (NewAlertService (stopped_clock 12) transport_up (pick_listed [(''RSI'', 30), (''MACD'', 1)]))))
       \<noteq> sent (snd (HandleDecisionEvent f defaultConfig (Decision two_indicators)
        (NewAlertService (stopped_clock 12) transport_up (pick_listed [(''MACD'', 1), (''RSI'', 30)]))))"
proof -
  let ?s1 = "NewAlertService (stopped_clock 12) transport_up (pick_listed [(''RSI'', 30), (''MACD'', 1)])"
  let ?s2 = "NewAlertService (stopped_clock 12) transport_up (pick_listed [(''MACD'', 1), (''RSI'', 30)])"
  have a: "range_order (IndicatorsSnapshot (Data two_indicators)) [(''RSI'', 30), (''MACD'', 1)]"
    by (auto simp: range_order_def two_indicators_def)
  have b: "range_order (IndicatorsSnapshot (Data two_indicators)) [(''MACD'', 1), (''RSI'', 30)]"
    by (auto simp: range_order_def two_indicators_def)
  have bar: "formatConfidenceBar (Confidence (Data two_indicators))
      = Inr (concat (replicate 8 full_block @ replicate 2 light_shade))"
    using formatConfidenceBar_in_range [of "8 / 10"] by (simp add: two_indicators_def filled_8)
  obtain m1 where m1: "formatDecisionMessage f [(''RSI'', 30), (''MACD'', 1)] two_indicators = Inr m1"
    by (simp add: formatDecisionMessage_def Let_def bar)
  obtain m2 where m2: "formatDecisionMessage f [(''MACD'', 1), (''RSI'', 30)] two_indicators = Inr m2"
    by (simp add: formatDecisionMessage_def Let_def bar)
  have c: "formatDecisionMessage f [(''RSI'', 30), (''MACD'', 1)] two_indicators
       \<noteq> formatDecisionMessage f [(''MACD'', 1), (''RSI'', 30)] two_indicators"
    by (simp add: formatDecisionMessage_def Let_def bar)
  have g: "gates_pass defaultConfig two_indicators ?s1" "gates_pass defaultConfig two_indicators ?s2"
    by (simp_all add: gates_pass_def two_indicators_def defaultConfig_def shouldAlertForSignal_def
          SignalBuy_def checkCooldown_def isQuietHours_def NewAlertService_def)
  have p1: "formatDecisionMessage f (range_pick ?s1 (IndicatorsSnapshot (Data two_indicators)))
              two_indicators = Inr m1"
    using m1 by (simp add: NewAlertService_def pick_listed_def)
  have p2: "formatDecisionMessage f (range_pick ?s2 (IndicatorsSnapshot (Data two_indicators)))
              two_indicators = Inr m2"
    using m2 by (simp add: NewAlertService_def pick_listed_def)
  have t: "transport ?s1 (length (sent ?s1)) m1 = None" "sent ?s1 = []"
    "transport ?s2 (length (sent ?s2)) m2 = None" "sent ?s2 = []"
    by (simp_all add: NewAlertService_def transport_up_def)
  have e1: "sent (snd (HandleDecisionEvent f defaultConfig (Decision two_indicators) ?s1)) = [m1]"
    using p1 t(1,2)
    by (simp add: HandleDecisionEvent_pass [OF g(1)] log_Printf_frame setCooldown_records)
  have e2: "sent (snd (HandleDecisionEvent f defaultConfig (Decision two_indicators) ?s2)) = [m2]"
    using p2 t(3,4)
    by (simp add: HandleDecisionEvent_pass [OF g(2)] log_Printf_frame setCooldown_records)
  have d: "sent (snd (HandleDecisionEvent f defaultConfig (Decision two_indicators) ?s1))
       \<noteq> sent (snd (HandleDecisionEvent f defaultConfig (Decision two_indicators) ?s2))"
    using c m1 m2 e1 e2 by simp
  show ?thesis
    using a b c d by blast
qed

section \<open>The claim loop: one mark for each message\<close>

lemma HandleRankingEvent_returns: "fst (HandleRankingEvent f cfg (Ranking r) s) \<noteq> Panicked p"
proof -
  obtain message where msg: "formatRankingMessage f cfg r = Inr message"
    using formatRankingMessage_total [of f cfg r] by blast
  show ?thesis
    by (simp add: HandleRankingEvent_eq msg split: option.splits)
qed

lemma HandleDecisionEvent_returns:
  assumes "0 \<le> int_of_float64 (float64_mul (Confidence (Data d)) 10)"
    and "int_of_float64 (float64_mul (Confidence (Data d)) 10) \<le> 10"
  shows "fst (HandleDecisionEvent f cfg (Decision d) s) \<noteq> Panicked p"
proof (cases "gates_pass cfg d s")
  case True
  obtain message where
    "formatDecisionMessage f (range_pick s (IndicatorsSnapshot (Data d))) d = Inr message"
    using formatDecisionMessage_renders [OF assms] by blast
  then show ?thesis
    by (simp add: HandleDecisionEvent_pass [OF True] split: option.splits)
next
  case False
  then show ?thesis
    by (simp add: HandleDecisionEvent_suppressed)
qed

lemma returns_in_handler:
  assumes "\<And>r p. dispatch j c m s = Some r \<Longrightarrow> fst r \<noteq> Panicked p"
  shows "returns_in j c m s"
proof (cases "dispatch j c m s")
  case None
  then show ?thesis
    by (simp add: returns_in_def)
next
  case (Some r)
  show ?thesis
  proof (cases "fst r")
    case (Panicked p)
    then show ?thesis
      using assms [OF Some, of p] by simp
  qed (simp_all add: returns_in_def Some)
qed

lemma handleMessage_returns:
  assumes "returns_in j c m s"
  shows "handleMessage j c m (s, tr)
           = (None, (state_after j c m s, tr @ dispatch_trace j c m s @ [Marked m]))"
proof -
  consider (dn) "Topic m = decisionTopic c" "decisionHandler c = None"
    | (dm) h err where "Topic m = decisionTopic c" "decisionHandler c = Some h"
        "unmarshalDecision j (Value m) = Inl err"
    | (dv) h ev where "Topic m = decisionTopic c" "decisionHandler c = Some h"
        "unmarshalDecision j (Value m) = Inr ev"
    | (rn) "Topic m \<noteq> decisionTopic c" "Topic m = rankingTopic c" "rankingHandler c = None"
    | (rm) h err where "Topic m \<noteq> decisionTopic c" "Topic m = rankingTopic c"
        "rankingHandler c = Some h" "unmarshalRanking j (Value m) = Inl err"
    | (rv) h ev where "Topic m \<noteq> decisionTopic c" "Topic m = rankingTopic c"
        "rankingHandler c = Some h" "unmarshalRanking j (Value m) = Inr ev"
    | (other) "Topic m \<noteq> decisionTopic c" "Topic m \<noteq> rankingTopic c"
    by (metis not_Some_eq sum.exhaust)
  then show ?thesis
  proof cases
    case dn
    then show ?thesis
      by (simp add: handleMessage_def state_after_def dispatch_trace_def dispatch_def
          handler_of_def logged_def)
  next
    case dm
    then show ?thesis
      by (simp add: handleMessage_def state_after_def dispatch_trace_def dispatch_def
          handler_of_def decode_def logged_def)
  next
    case dv
    then have d: "dispatch j c m s = Some (h (Decision ev) s)"
      by (simp add: dispatch_def handler_of_def decode_def)
    obtain out s' where r: "h (Decision ev) s = (out, s')"
      by (cases "h (Decision ev) s")
    show ?thesis
    proof (cases out)
      case (Panicked p)
      then have False
        using assms d r by (simp add: returns_in_def)
      then show ?thesis ..
    qed (use dv r in \<open>simp_all add: handleMessage_def state_after_def dispatch_trace_def
          dispatch_def handler_of_def decode_def logged_def\<close>)
  next
    case rn
    then show ?thesis
      by (simp add: handleMessage_def state_after_def dispatch_trace_def dispatch_def
          handler_of_def logged_def)
  next
    case rm
    then show ?thesis
      by (simp add: handleMessage_def state_after_def dispatch_trace_def dispatch_def
          handler_of_def decode_def logged_def)
  next
    case rv
    then have d: "dispatch j c m s = Some (h (Ranking ev) s)"
      by (simp add: dispatch_def handler_of_def decode_def)
    obtain out s' where r: "h (Ranking ev) s = (out, s')"
      by (cases "h (Ranking ev) s")
    show ?thesis
    proof (cases out)
      case (Panicked p)
      then have False
        using assms d r by (simp add: returns_in_def)
      then show ?thesis ..
    qed (use rv r in \<open>simp_all add: handleMessage_def state_after_def dispatch_trace_def
          dispatch_def handler_of_def decode_def logged_def\<close>)
  next
    case other
    then show ?thesis
      by (simp add: handleMessage_def state_after_def dispatch_trace_def dispatch_def
          handler_of_def logged_def)
  qed
qed

lemma handleMessage_panics:
  assumes "dispatch j c m s = Some (Panicked p, s')"
  shows "handleMessage j c m (s, tr) = (Some p, (s', tr @ [Invoked m]))"
  using assms
  by (auto simp: handleMessage_def dispatch_def handler_of_def decode_def
      split: if_splits option.splits sum.splits)

lemma ConsumeClaim_run:
  assumes "all_return j c msgs s"
  shows "ConsumeClaim j c (map Message msgs @ evs) (s, tr)
           = ConsumeClaim j c evs (run_state j c msgs s, tr @ run_trace j c msgs s)"
  using assms
proof (induction msgs arbitrary: s tr)
  case Nil
  show ?case by simp
next
  case (Cons m msgs)
  then have m: "returns_in j c m s" and rest: "all_return j c msgs (state_after j c m s)"
    by simp_all
  have "ConsumeClaim j c (map Message (m # msgs) @ evs) (s, tr)
      = ConsumeClaim j c (map Message msgs @ evs) (state_after j c m s, tr @ message_block j c m s)"
    using handleMessage_returns [OF m, of "tr @ [Received m]"]
    by (simp add: message_block_def)
  also have "\<dots> = ConsumeClaim j c evs
      (run_state j c msgs (state_after j c m s),
       (tr @ message_block j c m s) @ run_trace j c msgs (state_after j c m s))"
    using rest by (rule Cons.IH)
  finally show ?case by simp
qed

lemma dispatch_trace_inner:
  "\<forall>a \<in> set (dispatch_trace j c m s). \<not> is_Marked a \<and> \<not> is_Received a"
  by (auto simp: dispatch_trace_def split: option.splits)

lemma dispatch_trace_invoked:
  "Invoked m \<in> set (dispatch_trace j c m s) \<longleftrightarrow> dispatch j c m s \<noteq> None"
  by (cases "dispatch j c m s") (auto simp: dispatch_trace_def)

lemma message_block_marks: "filter is_Marked (message_block j c m s) = [Marked m]"
proof -
  have "filter is_Marked (dispatch_trace j c m s) = []"
    using dispatch_trace_inner [of j c m s] by (simp add: filter_empty_conv)
  then show ?thesis
    by (simp add: message_block_def)
qed

lemma message_block_received: "filter is_Received (message_block j c m s) = [Received m]"
proof -
  have "filter is_Received (dispatch_trace j c m s) = []"
    using dispatch_trace_inner [of j c m s] by (simp add: filter_empty_conv)
  then show ?thesis
    by (simp add: message_block_def)
qed

lemma run_trace_marks: "filter is_Marked (run_trace j c msgs s) = map Marked msgs"
  by (induction msgs arbitrary: s) (simp_all add: message_block_marks)

lemma run_trace_received: "filter is_Received (run_trace j c msgs s) = map Received msgs"
  by (induction msgs arbitrary: s) (simp_all add: message_block_received)

lemma all_return_each:
  assumes "\<And>m s. m \<in> set msgs \<Longrightarrow> returns_in j c m s"
  shows "all_return j c msgs s"
  using assms by (induction msgs arbitrary: s) simp_all

lemma overconfident_dispatch:
  "dispatch sample_json sample_consumer overconfident_message
     (NewAlertService (stopped_clock 12) transport_up (pick_listed []))
   = Some (Panicked ''strings: negative Repeat count'',
           after_gates defaultConfig (sample_decision ''BUY'' (12 / 10))
             (NewAlertService (stopped_clock 12) transport_up (pick_listed [])))"
proof -
  let ?s = "NewAlertService (stopped_clock 12) transport_up (pick_listed [])"
  let ?d = "sample_decision ''BUY'' (12 / 10)"
  have g: "gates_pass defaultConfig ?d ?s"
    by code_simp
  have "int_of_float64 (float64_mul (12 / 10) 10) = 12"
    using filled_whole [of "12 / 10" 12] by simp
  then have k: "int_of_float64 (float64_mul (Confidence (Data ?d)) 10) < 0
      \<or> int_of_float64 (float64_mul (Confidence (Data ?d)) 10) > 10"
    by (simp add: sample_decision_def)
  show ?thesis
    using HandleDecisionEvent_panics [OF g k, of std_fmt]
    by (simp add: dispatch_def handler_of_def decode_def sample_consumer_def sample_json_def
        overconfident_message_def)
qed

text \<open>
  C5, as amended. For every sequence of delivered messages, each with a malformed payload
  or with a handler that returns (with or without an error) on its event, the loop goes
  through all of them and then waits for the next one: after them it behaves as a loop
  that starts in the state that the handlers have left. Its trace is one block for each
  message, in order; a block starts with the delivery of the message, holds its dispatch
  (the invocation of the handler, exactly when the payload decodes and the topic has a
  handler), and ends with its mark, the only mark of the block. So every message is
  marked exactly once, after its delivery and its dispatch, and no malformed payload or
  handler error ends the loop. A handler that panics is not recovered from: the panic
  unwinds the loop, and the message is left unmarked.
\<close>

theorem ConsumeClaim_marks_each_once:
  assumes "all_return j c msgs s"
  shows "ConsumeClaim j c (map Message msgs) (s, tr)
           = (Waiting, (run_state j c msgs s, tr @ run_trace j c msgs s))
    \<and> (\<forall>evs. ConsumeClaim j c (map Message msgs @ evs) (s, tr)
               = ConsumeClaim j c evs (run_state j c msgs s, tr @ run_trace j c msgs s))
    \<and> filter is_Marked (run_trace j c msgs s) = map Marked msgs
    \<and> filter is_Received (run_trace j c msgs s) = map Received msgs
    \<and> (\<forall>m s0. \<exists>mid. message_block j c m s0 = Received m # mid @ [Marked m]
                   \<and> (\<forall>a \<in> set mid. \<not> is_Marked a \<and> \<not> is_Received a)
                   \<and> (Invoked m \<in> set mid \<longleftrightarrow> dispatch j c m s0 \<noteq> None))
    \<and> (\<forall>m p s' evs. dispatch j c m (run_state j c msgs s) = Some (Panicked p, s') \<longrightarrow>
          ConsumeClaim j c (map Message msgs @ Message m # evs) (s, tr)
            = (Unwound p, (s', tr @ run_trace j c msgs s @ [Received m, Invoked m])))"
proof -
  have run: "ConsumeClaim j c (map Message msgs @ evs) (s, tr)
      = ConsumeClaim j c evs (run_state j c msgs s, tr @ run_trace j c msgs s)" for evs
    using assms by (rule ConsumeClaim_run)
  have wait: "ConsumeClaim j c (map Message msgs) (s, tr)
      = (Waiting, (run_state j c msgs s, tr @ run_trace j c msgs s))"
    using run [of "[]"] by simp
  have block: "\<exists>mid. message_block j c m s0 = Received m # mid @ [Marked m]
      \<and> (\<forall>a \<in> set mid. \<not> is_Marked a \<and> \<not> is_Received a)
      \<and> (Invoked m \<in> set mid \<longleftrightarrow> dispatch j c m s0 \<noteq> None)" for m s0
    using dispatch_trace_inner [of j c m s0] dispatch_trace_invoked [of m j c s0]
    by (intro exI [of _ "dispatch_trace j c m s0"]) (simp add: message_block_def)
  have panic: "ConsumeClaim j c (map Message msgs @ Message m # evs) (s, tr)
      = (Unwound p, (s', tr @ run_trace j c msgs s @ [Received m, Invoked m]))"
    if "dispatch j c m (run_state j c msgs s) = Some (Panicked p, s')" for m p s' evs
    using handleMessage_panics [OF that, of "(tr @ run_trace j c msgs s) @ [Received m]"]
    by (simp add: run)
  show ?thesis
    using wait run run_trace_marks [of j c msgs s] run_trace_received [of j c msgs s]
      block panic
    by blast
qed

text \<open>
  The four sample messages with the transport down, so that both handlers return an error:
  the loop is waiting after them, returns once the channel is closed, and its marks are the
  four messages, each once, in order. With the decision of confidence 1.2 delivered first,
  the loop is unwound by the panic of the handler.
\<close>

theorem ConsumeClaim_marks_each_once_witness:
  "fst (ConsumeClaim sample_json sample_consumer (map Message sample_messages)
          (NewAlertService (stopped_clock 12) transport_down (pick_listed []), [])) = Waiting
   \<and> fst (ConsumeClaim sample_json sample_consumer (map Message sample_messages @ [ChannelClosed])
          (NewAlertService (stopped_clock 12) transport_down (pick_listed []), [])) = ReturnedNil
   \<and> filter is_Marked (snd (snd (ConsumeClaim sample_json sample_consumer
          (map Message sample_messages @ [ChannelClosed])
          (NewAlertService (stopped_clock 12) transport_down (pick_listed []), []))))
       = map Marked sample_messages
   \<and> fst (ConsumeClaim sample_json sample_consumer
          (Message overconfident_message # map Message sample_messages)
          (NewAlertService (stopped_clock 12) transport_up (pick_listed []), []))
       = Unwound ''strings: negative Repeat count''"
proof -
  let ?s = "NewAlertService (stopped_clock 12) transport_down (pick_listed [])"
  let ?up = "NewAlertService (stopped_clock 12) transport_up (pick_listed [])"
  have d: "fst (HandleDecisionEvent std_fmt defaultConfig
             (Decision (sample_decision ''BUY'' (8 / 10))) s) \<noteq> Panicked p" for s p
    by (rule HandleDecisionEvent_returns) (simp_all add: sample_decision_def filled_8)
  have r: "fst (HandleRankingEvent std_fmt defaultConfig (Ranking ev) s) \<noteq> Panicked p"
    for ev s p
    by (rule HandleRankingEvent_returns)
  have "returns_in sample_json sample_consumer m s" if "m \<in> set sample_messages" for m s
  proof (rule returns_in_handler)
    fix res p
    assume "dispatch sample_json sample_consumer m s = Some res"
    then have "res = HandleDecisionEvent std_fmt defaultConfig
                       (Decision (sample_decision ''BUY'' (8 / 10))) s
        \<or> res = HandleRankingEvent std_fmt defaultConfig (Ranking sample_ranking_event) s"
      using that
      by (auto simp: dispatch_def handler_of_def decode_def sample_messages_def
          sample_consumer_def sample_json_def)
    then show "fst res \<noteq> Panicked p"
      using d r by blast
  qed
  then have ok: "all_return sample_json sample_consumer sample_messages ?s"
    by (rule all_return_each)
  note a = ConsumeClaim_marks_each_once [OF ok, of "[]"]
  have nil: "all_return sample_json sample_consumer [] ?up"
    by simp
  note b = ConsumeClaim_marks_each_once [OF nil, of "[]"]
  have wait: "ConsumeClaim sample_json sample_consumer (map Message sample_messages) (?s, [])
      = (Waiting, (run_state sample_json sample_consumer sample_messages ?s,
                   run_trace sample_json sample_consumer sample_messages ?s))"
    using a by simp
  have "ConsumeClaim sample_json sample_consumer (map Message sample_messages @ [ChannelClosed]) (?s, [])
      = ConsumeClaim sample_json sample_consumer [ChannelClosed]
          (run_state sample_json sample_consumer sample_messages ?s,
           [] @ run_trace sample_json sample_consumer sample_messages ?s)"
    using a by blast
  then have closed: "ConsumeClaim sample_json sample_consumer
        (map Message sample_messages @ [ChannelClosed]) (?s, [])
      = (ReturnedNil, (run_state sample_json sample_consumer sample_messages ?s,
                       run_trace sample_json sample_consumer sample_messages ?s))"
    by simp
  have marks: "filter is_Marked (run_trace sample_json sample_consumer sample_messages ?s)
      = map Marked sample_messages"
    using a by blast
  have "ConsumeClaim sample_json sample_consumer
        (map Message [] @ Message overconfident_message # map Message sample_messages) (?up, [])
      = (Unwound ''strings: negative Repeat count'',
         (after_gates defaultConfig (sample_decision ''BUY'' (12 / 10)) ?up,
          [] @ run_trace sample_json sample_consumer [] ?up
             @ [Received overconfident_message, Invoked overconfident_message]))"
    using b overconfident_dispatch by (metis run_state.simps(1))
  then have unwound: "fst (ConsumeClaim sample_json sample_consumer
        (Message overconfident_message # map Message sample_messages) (?up, []))
      = Unwound ''strings: negative Repeat count''"
    by simp
  show ?thesis
    using wait closed marks unwound by simp
qed

text \<open>
  The claim as stated has every delivered message with a valid payload marked and the loop
  going on. The fifth sample message has a valid payload, a decision of confidence 1.2
  that passes the default gates: its handler panics on the confidence bar, nothing in
  \<^verbatim>\<open>ConsumeClaim\<close> recovers, and the loop is unwound with the message delivered and
  dispatched but not marked; the message behind it is never received.
\<close>

theorem ConsumeClaim_panic_counterexample:
  "unmarshalDecision sample_json (Value overconfident_message)
     = Inr (sample_decision ''BUY'' (12 / 10))
   \<and> fst (ConsumeClaim sample_json sample_consumer
          [Message overconfident_message, Message (hd sample_messages), ChannelClosed]
          (NewAlertService (stopped_clock 12) transport_up (pick_listed []), []))
       = Unwound ''strings: negative Repeat count''
   \<and> snd (snd (ConsumeClaim sample_json sample_consumer
          [Message overconfident_message, Message (hd sample_messages), ChannelClosed]
          (NewAlertService (stopped_clock 12) transport_up (pick_listed []), [])))
       = [Received overconfident_message, Invoked overconfident_message]
   \<and> filter is_Marked (snd (snd (ConsumeClaim sample_json sample_consumer
          [Message overconfident_message, Message (hd sample_messages), ChannelClosed]
          (NewAlertService (stopped_clock 12) transport_up (pick_listed []), []))))
       = []"
proof -
  let ?s = "NewAlertService (stopped_clock 12) transport_up (pick_listed [])"
  have v: "unmarshalDecision sample_json (Value overconfident_message)
      = Inr (sample_decision ''BUY'' (12 / 10))"
    by (simp add: sample_json_def overconfident_message_def)
  have "ConsumeClaim sample_json sample_consumer
        [Message overconfident_message, Message (hd sample_messages), ChannelClosed] (?s, [])
      = (Unwound ''strings: negative Repeat count'',
         (after_gates defaultConfig (sample_decision ''BUY'' (12 / 10)) ?s,
          [Received overconfident_message, Invoked overconfident_message]))"
    using handleMessage_panics [OF overconfident_dispatch, of "[Received overconfident_message]"]
    by simp
  then show ?thesis
    using v by simp
qed

end
